theory Spec2Isabelle
  imports Complex_Main "HOL-Library.Char_ord" "HOL-Library.List_Lexorder"
begin

section \<open>Data model\<close>

text \<open>
  The dashboard script \<^verbatim>\<open>app.py\<close> works on one pandas DataFrame. A cell of an
  \<^verbatim>\<open>object\<close> column is a text or NaN; NaN is \<open>None\<close>. The file is decoded as
  ISO-8859-1 (line 72), so every character of every text is a code point below 256, which
  is what \<^typ>\<open>char\<close> holds; Python compares texts by code point, lexicographically, which
  is the order of \<^typ>\<open>string\<close> here.
\<close>

type_synonym cell = "string option"

text \<open>
  A timestamp, down to the day (the script only uses the year and the month of a date).
  \<open>None\<close> in a date column is NaT.
\<close>

record date =
  year :: nat
  month :: nat
  day :: nat

text \<open>
  One row of the table, restricted to the ten columns the script reads. The two type
  parameters are the types of the date columns and of the numeric columns: texts as
  \<^verbatim>\<open>read_csv\<close> delivers them, dates and numbers after lines 78 to 82.
  Amounts are exact rationals: the rounding of binary floating point is not modelled.
\<close>

record ('d, 'n) order_row =
  OrderID :: cell
  OrderDate :: 'd
  ShipDate :: 'd
  Sales :: 'n
  Profit :: 'n
  Region :: cell
  Segment :: cell
  Category :: cell
  SubCategory :: cell
  CustomerName :: cell

type_synonym raw_row = "(cell, cell) order_row"
type_synonym row = "(date option, rat option) order_row"

datatype error = TypeError | KeyError | ParserError | EmptyDataError

section \<open>Loading (lines 67 to 85)\<close>

text \<open>
  \<^verbatim>\<open>pd.to_datetime(..., errors='coerce')\<close> and \<^verbatim>\<open>pd.to_numeric(..., errors='coerce')\<close>
  are library parsers; they are parameters of the model. A text that does not parse, and a
  cell that is already NaN, become NaT or NaN.
\<close>

definition coerce_cell :: "(string \<Rightarrow> 'a option) \<Rightarrow> cell \<Rightarrow> 'a option" where
  "coerce_cell parse c = (case c of None \<Rightarrow> None | Some s \<Rightarrow> parse s)"

definition coerce :: "(string \<Rightarrow> date option) \<Rightarrow> (string \<Rightarrow> rat option) \<Rightarrow> raw_row \<Rightarrow> row" where
  "coerce to_datetime to_numeric r =
     \<lparr> OrderID = OrderID r,
       OrderDate = coerce_cell to_datetime (OrderDate r),
       ShipDate = coerce_cell to_datetime (ShipDate r),
       Sales = coerce_cell to_numeric (Sales r),
       Profit = coerce_cell to_numeric (Profit r),
       Region = Region r,
       Segment = Segment r,
       Category = Category r,
       SubCategory = SubCategory r,
       CustomerName = CustomerName r \<rparr>"

text \<open>
  \<^verbatim>\<open>df.dropna(subset=['Sales', 'Profit', 'Region', 'Segment', 'Category', 'SubCategory',
  'CustomerName'])\<close> keeps the rows in which none of the seven columns is missing.
\<close>

definition notna_subset :: "row \<Rightarrow> bool" where
  "notna_subset r \<longleftrightarrow>
     Sales r \<noteq> None \<and> Profit r \<noteq> None \<and> Region r \<noteq> None \<and> Segment r \<noteq> None \<and>
     Category r \<noteq> None \<and> SubCategory r \<noteq> None \<and> CustomerName r \<noteq> None"

definition dropna :: "row list \<Rightarrow> row list" where
  "dropna df = filter notna_subset df"

definition load_data ::
  "(string \<Rightarrow> date option) \<Rightarrow> (string \<Rightarrow> rat option) \<Rightarrow> raw_row list \<Rightarrow> row list" where
  "load_data to_datetime to_numeric raw = dropna (map (coerce to_datetime to_numeric) raw)"

section \<open>Filtering (lines 103 to 125)\<close>

text \<open>
  \<^verbatim>\<open>Series.isin(values)\<close> is a boolean column; NaN is in \<open>values\<close> exactly when \<open>values\<close>
  holds a NaN. \<^verbatim>\<open>&\<close> combines two boolean columns position by position, and
  \<^verbatim>\<open>df[mask]\<close> keeps the rows whose position is marked, in their order.
\<close>

definition isin :: "cell list \<Rightarrow> cell list \<Rightarrow> bool list" where
  "isin col vals = map (\<lambda>c. c \<in> set vals) col"

definition mask_and :: "bool list \<Rightarrow> bool list \<Rightarrow> bool list" where
  "mask_and m1 m2 = map (\<lambda>(a, b). a \<and> b) (zip m1 m2)"

definition boolean_index :: "'a list \<Rightarrow> bool list \<Rightarrow> 'a list" where
  "boolean_index xs msk = map fst (filter snd (zip xs msk))"

definition filter_mask :: "row list \<Rightarrow> cell list \<Rightarrow> cell list \<Rightarrow> cell list \<Rightarrow> bool list" where
  "filter_mask df selected_regions selected_categories selected_subcategories =
     mask_and
       (mask_and (isin (map Region df) selected_regions)
                 (isin (map Category df) selected_categories))
       (isin (map SubCategory df) selected_subcategories)"

definition apply_filters :: "row list \<Rightarrow> cell list \<Rightarrow> cell list \<Rightarrow> cell list \<Rightarrow> row list" where
  "apply_filters df selected_regions selected_categories selected_subcategories =
     boolean_index df
       (filter_mask df selected_regions selected_categories selected_subcategories)"

text \<open>
  \<^verbatim>\<open>sorted(df[c].unique())\<close>, the options and the default of a selector. \<^verbatim>\<open>unique\<close> keeps
  one NaN; \<^verbatim>\<open>sorted\<close> compares, and comparing a text with NaN (a float) raises TypeError,
  so a column holding both a text and a NaN fails, and a column of NaN only gives one NaN.
\<close>

definition sorted_unique :: "cell list \<Rightarrow> error + cell list" where
  "sorted_unique col =
     (let u = remdups col in
      if None \<in> set u then (if 1 < length u then Inl TypeError else Inr u)
      else Inr (map Some (sort (List.map_filter id u))))"

section \<open>Aggregation (lines 131 to 250)\<close>

text \<open>
  \<^verbatim>\<open>Series.sum()\<close> skips NaN and is 0 on an empty column; \<^verbatim>\<open>Series.nunique()\<close> counts the
  distinct values that are not NaN.
\<close>

definition sum_skipna :: "rat option list \<Rightarrow> rat" where
  "sum_skipna col = sum_list (List.map_filter id col)"

definition nunique :: "cell list \<Rightarrow> nat" where
  "nunique col = length (remdups (List.map_filter id col))"

definition total_sales :: "row list \<Rightarrow> rat" where
  "total_sales df_filtered = sum_skipna (map Sales df_filtered)"

definition total_profit :: "row list \<Rightarrow> rat" where
  "total_profit df_filtered = sum_skipna (map Profit df_filtered)"

definition total_orders :: "row list \<Rightarrow> nat" where
  "total_orders df_filtered = nunique (map OrderID df_filtered)"

text \<open>
  \<^verbatim>\<open>df.groupby(key)\<close>, with its defaults \<^verbatim>\<open>sort=True\<close> and \<^verbatim>\<open>dropna=True\<close>: the groups
  are the distinct keys that are not NaN, in ascending order of the key; the group of a key
  holds the rows with that key, in their order. \<^verbatim>\<open>[val].sum()\<close> sums one column in each
  group.
\<close>

definition group_keys :: "('r \<Rightarrow> 'k::linorder option) \<Rightarrow> 'r list \<Rightarrow> 'k list" where
  "group_keys key rs = sort (remdups (List.map_filter key rs))"

definition get_group :: "('r \<Rightarrow> 'k option) \<Rightarrow> 'r list \<Rightarrow> 'k \<Rightarrow> 'r list" where
  "get_group key rs k = filter (\<lambda>r. key r = Some k) rs"

definition groupby_sum ::
  "('r \<Rightarrow> 'k::linorder option) \<Rightarrow> ('r \<Rightarrow> rat option) \<Rightarrow> 'r list \<Rightarrow> ('k \<times> rat) list" where
  "groupby_sum key val rs =
     map (\<lambda>k. (k, sum_skipna (map val (get_group key rs k)))) (group_keys key rs)"

text \<open>
  \<^verbatim>\<open>Series.sort_values(ascending=False)\<close> puts the entries in descending order of their
  values. Its default \<^verbatim>\<open>kind='quicksort'\<close> is not a stable sort: in which order entries
  with equal values come out is decided inside the sorting routine of numpy, not by the
  order of the series. The parameter \<open>tie\<close> stands for that decision: it ranks the labels,
  and entries with equal values come out in ascending rank (and in the order of the series
  where the ranks are equal as well). Every descending arrangement of a series with
  distinct labels is the result for some ranking (lemma \<open>sort_values_desc_any\<close>), so
  what holds for every \<open>tie\<close> holds whatever the sorting routine does with equal values.
  \<^verbatim>\<open>head(n)\<close> keeps the first \<open>n\<close> entries.
\<close>

definition sort_values_desc :: "('k \<Rightarrow> nat) \<Rightarrow> ('k \<times> rat) list \<Rightarrow> ('k \<times> rat) list" where
  "sort_values_desc tie s = rev (sort_key snd (rev (sort_key (\<lambda>e. tie (fst e)) s)))"

definition head :: "nat \<Rightarrow> 'a list \<Rightarrow> 'a list" where
  "head n s = take n s"

definition top_customers :: "(string \<Rightarrow> nat) \<Rightarrow> row list \<Rightarrow> (string \<times> rat) list" where
  "top_customers tie df_filtered =
     head 5 (sort_values_desc tie (groupby_sum CustomerName Sales df_filtered))"

definition segment_sales :: "row list \<Rightarrow> (string \<times> rat) list" where
  "segment_sales df_filtered = groupby_sum Segment Sales df_filtered"

definition region_sales :: "(string \<Rightarrow> nat) \<Rightarrow> row list \<Rightarrow> (string \<times> rat) list" where
  "region_sales tie df_filtered = sort_values_desc tie (groupby_sum Region Sales df_filtered)"

definition category_sales :: "(string \<Rightarrow> nat) \<Rightarrow> row list \<Rightarrow> (string \<times> rat) list" where
  "category_sales tie df_filtered =
     sort_values_desc tie (groupby_sum Category Sales df_filtered)"

definition subcategory_profit :: "(string \<Rightarrow> nat) \<Rightarrow> row list \<Rightarrow> (string \<times> rat) list" where
  "subcategory_profit tie df_filtered =
     head 10 (sort_values_desc tie (groupby_sum SubCategory Profit df_filtered))"

subsection \<open>The Month column and the monthly trend (lines 178 to 180)\<close>

text \<open>
  \<^verbatim>\<open>.dt.to_period('M').astype(str)\<close> writes a timestamp as year, hyphen, two-digit
  month. The year is written with four digits, which is all of it for the years 1000 to
  9999.
\<close>

definition digit :: "nat \<Rightarrow> char" where
  "digit n = char_of (48 + n mod 10)"

definition month_str :: "date \<Rightarrow> string" where
  "month_str d =
     [digit (year d div 1000), digit (year d div 100), digit (year d div 10), digit (year d),
      CHR ''-'', digit (month d div 10), digit (month d)]"

text \<open>
  What \<^verbatim>\<open>astype(str)\<close> makes of NaT depends on the version of pandas, and the
  repository names none: pandas before 3.0 writes the text \<^verbatim>\<open>NaT\<close>, pandas 3 leaves the
  cell missing. The version is a parameter of the model.
\<close>

datatype astype_str = NaT_text | NaT_missing

definition period_str :: "astype_str \<Rightarrow> date option \<Rightarrow> cell" where
  "period_str v t =
     (case t of
        Some d \<Rightarrow> Some (month_str d)
      | None \<Rightarrow> (case v of NaT_text \<Rightarrow> Some ''NaT'' | NaT_missing \<Rightarrow> None))"

definition valid_date :: "date \<Rightarrow> bool" where
  "valid_date d \<longleftrightarrow> 1000 \<le> year d \<and> year d \<le> 9999 \<and> 1 \<le> month d \<and> month d \<le> 12"

text \<open>
  A DataFrame object: its rows, and the column \<^verbatim>\<open>Month\<close>, which exists only once line 178
  has assigned it (a table read back from an exported file has it as well). Grouping by a
  column that does not exist raises KeyError; rows whose Month is missing are in no group.
\<close>

record frame =
  rows :: "row list"
  Month :: "cell list option"

definition new_frame :: "row list \<Rightarrow> frame" where
  "new_frame rs = \<lparr> rows = rs, Month = None \<rparr>"

definition month_of :: "astype_str \<Rightarrow> row \<Rightarrow> cell" where
  "month_of v r = period_str v (OrderDate r)"

definition assign_month :: "astype_str \<Rightarrow> frame \<Rightarrow> frame" where
  "assign_month v f = f \<lparr> Month := Some (map (month_of v) (rows f)) \<rparr>"

definition groupby_month_sum :: "(cell \<times> row) list \<Rightarrow> (string \<times> rat \<times> rat) list" where
  "groupby_month_sum mrows =
     map (\<lambda>k. (k, sum_skipna (map (\<lambda>(m, r). Sales r) (get_group fst mrows k)),
                  sum_skipna (map (\<lambda>(m, r). Profit r) (get_group fst mrows k))))
         (group_keys fst mrows)"

definition monthly :: "frame \<Rightarrow> error + (string \<times> rat \<times> rat) list" where
  "monthly f =
     (case Month f of
        None \<Rightarrow> Inl KeyError
      | Some ms \<Rightarrow> Inr (groupby_month_sum (zip ms (rows f))))"

text \<open>
  \<^verbatim>\<open>df[mask]\<close> on a DataFrame object makes a new object that holds the marked rows, with
  every column of the old one.
\<close>

definition frame_getitem :: "frame \<Rightarrow> bool list \<Rightarrow> frame" where
  "frame_getitem f msk =
     \<lparr> rows = boolean_index (rows f) msk,
       Month = map_option (\<lambda>ms. boolean_index ms msk) (Month f) \<rparr>"

section \<open>Export and re-import (lines 72 to 84 and 266 to 272)\<close>

subsection \<open>The two encodings\<close>

text \<open>
  \<^verbatim>\<open>.encode('utf-8')\<close> writes a character below 128 as one byte and a character from 128
  to 255 as two bytes. Reading with \<^verbatim>\<open>encoding='ISO-8859-1'\<close> makes one character of
  every byte, the one with the byte's number. Bytes are values of \<^typ>\<open>char\<close> as well.
\<close>

definition utf8_char :: "char \<Rightarrow> string" where
  "utf8_char c =
     (if (of_char c :: nat) < 128 then [c]
      else [char_of (192 + (of_char c :: nat) div 64), char_of (128 + (of_char c :: nat) mod 64)])"

definition encode_utf8 :: "string \<Rightarrow> string" where
  "encode_utf8 text = concat (map utf8_char text)"

definition decode_latin1 :: "string \<Rightarrow> string" where
  "decode_latin1 bytes = map (\<lambda>b. char_of (of_char b :: nat)) bytes"

subsection \<open>Writing: \<^verbatim>\<open>df_filtered.to_csv(index=False)\<close>\<close>

text \<open>
  A header line and one line for each row, the fields separated by commas, each line ended
  by a line feed. NaN and NaT are written as the empty field, a text as it is. How a date
  and a number are written is decided by the library for each column as a whole: a column
  of timestamps with its times of day unless every one of them is midnight, a column of
  integers without a decimal point, a column of floats with the \<^verbatim>\<open>repr\<close> of each float.
  The writers of the four typed columns are parameters of the model. A field that holds a
  comma, a double quote, a line feed or a carriage return is put in double quotes, with
  every double quote in it doubled.
\<close>

record formats =
  order_date_repr :: "date \<Rightarrow> string"
  ship_date_repr :: "date \<Rightarrow> string"
  sales_repr :: "rat \<Rightarrow> string"
  profit_repr :: "rat \<Rightarrow> string"

definition needs_quotes :: "char \<Rightarrow> bool" where
  "needs_quotes c \<longleftrightarrow> c = CHR '','' \<or> c = CHR 0x22 \<or> c = CHR 0x0A \<or> c = CHR 0x0D"

definition quote_minimal :: "string \<Rightarrow> string" where
  "quote_minimal field =
     (if list_ex needs_quotes field
      then [CHR 0x22] @ concat (map (\<lambda>c. if c = CHR 0x22 then [c, c] else [c]) field) @ [CHR 0x22]
      else field)"

fun join :: "string \<Rightarrow> string list \<Rightarrow> string" where
  "join sep [] = []"
| "join sep [x] = x"
| "join sep (x # y # ys) = x @ sep @ join sep (y # ys)"

definition csv_line :: "string list \<Rightarrow> string" where
  "csv_line flds = join '','' (map quote_minimal flds) @ [CHR 0x0A]"

definition column_names :: "string list" where
  "column_names = [''OrderID'', ''OrderDate'', ''ShipDate'', ''Sales'', ''Profit'', ''Region'',
     ''Segment'', ''Category'', ''SubCategory'', ''CustomerName'']"

definition na_rep :: "('a \<Rightarrow> string) \<Rightarrow> 'a option \<Rightarrow> string" where
  "na_rep show v = (case v of None \<Rightarrow> [] | Some x \<Rightarrow> show x)"

definition row_fields :: "formats \<Rightarrow> row \<Rightarrow> string list" where
  "row_fields w r =
     [na_rep id (OrderID r), na_rep (order_date_repr w) (OrderDate r),
      na_rep (ship_date_repr w) (ShipDate r), na_rep (sales_repr w) (Sales r),
      na_rep (profit_repr w) (Profit r), na_rep id (Region r), na_rep id (Segment r),
      na_rep id (Category r), na_rep id (SubCategory r), na_rep id (CustomerName r)]"

definition to_csv :: "formats \<Rightarrow> frame \<Rightarrow> string" where
  "to_csv w f =
     (case Month f of
        None \<Rightarrow> concat (map csv_line (column_names # map (row_fields w) (rows f)))
      | Some ms \<Rightarrow>
          concat (map csv_line
            ((column_names @ [''Month'']) #
             map (\<lambda>(r, m). row_fields w r @ [na_rep id m]) (zip (rows f) ms))))"

definition export_data :: "formats \<Rightarrow> frame \<Rightarrow> string" where
  "export_data w df_filtered = encode_utf8 (to_csv w df_filtered)"

subsection \<open>Reading: \<^verbatim>\<open>pd.read_csv\<close> and the rules of \<open>load_data\<close>\<close>

text \<open>
  The tokenizer of \<^verbatim>\<open>read_csv\<close>, with its default dialect: a comma ends a field, a line
  feed or a carriage return (with the line feed after it) ends a record, a double quote at
  the start of a field opens a quoted field, in which a doubled double quote is one double
  quote; empty lines are skipped; the end of the input inside a quoted field is an error.
  The state holds the characters of the current field and the fields of the current
  record, both last first, and the finished records, last first.
\<close>

datatype tok_state =
  START_RECORD | START_FIELD | IN_FIELD | IN_QUOTED_FIELD | QUOTE_IN_QUOTED_FIELD | EAT_CRNL

type_synonym tokenizer = "tok_state \<times> string \<times> string list \<times> string list list"

definition end_line :: "string \<Rightarrow> string list \<Rightarrow> string list list \<Rightarrow> string list list" where
  "end_line cur flds done = rev (rev cur # flds) # done"

definition tok_start_field :: "char \<Rightarrow> string list \<Rightarrow> string list list \<Rightarrow> tokenizer" where
  "tok_start_field c flds done =
     (if c = CHR 0x0A then (START_RECORD, [], [], end_line [] flds done)
      else if c = CHR 0x0D then (EAT_CRNL, [], [], end_line [] flds done)
      else if c = CHR 0x22 then (IN_QUOTED_FIELD, [], flds, done)
      else if c = CHR '','' then (START_FIELD, [], [] # flds, done)
      else (IN_FIELD, [c], flds, done))"

definition tok_start_record :: "char \<Rightarrow> string list list \<Rightarrow> tokenizer" where
  "tok_start_record c done =
     (if c = CHR 0x0A then (START_RECORD, [], [], done)
      else if c = CHR 0x0D then (EAT_CRNL, [], [], done)
      else tok_start_field c [] done)"

fun tok_step :: "tokenizer \<Rightarrow> char \<Rightarrow> tokenizer" where
  "tok_step (START_RECORD, cur, flds, done) c = tok_start_record c done"
| "tok_step (START_FIELD, cur, flds, done) c = tok_start_field c flds done"
| "tok_step (IN_FIELD, cur, flds, done) c =
     (if c = CHR 0x0A then (START_RECORD, [], [], end_line cur flds done)
      else if c = CHR 0x0D then (EAT_CRNL, [], [], end_line cur flds done)
      else if c = CHR '','' then (START_FIELD, [], rev cur # flds, done)
      else (IN_FIELD, c # cur, flds, done))"
| "tok_step (IN_QUOTED_FIELD, cur, flds, done) c =
     (if c = CHR 0x22 then (QUOTE_IN_QUOTED_FIELD, cur, flds, done)
      else (IN_QUOTED_FIELD, c # cur, flds, done))"
| "tok_step (QUOTE_IN_QUOTED_FIELD, cur, flds, done) c =
     (if c = CHR 0x22 then (IN_QUOTED_FIELD, c # cur, flds, done)
      else if c = CHR '','' then (START_FIELD, [], rev cur # flds, done)
      else if c = CHR 0x0A then (START_RECORD, [], [], end_line cur flds done)
      else if c = CHR 0x0D then (EAT_CRNL, [], [], end_line cur flds done)
      else (IN_FIELD, c # cur, flds, done))"
| "tok_step (EAT_CRNL, cur, flds, done) c =
     (if c = CHR 0x0A then (START_RECORD, [], [], done) else tok_start_record c done)"

fun tok_eof :: "tokenizer \<Rightarrow> error + string list list" where
  "tok_eof (START_RECORD, cur, flds, done) = Inr (rev done)"
| "tok_eof (EAT_CRNL, cur, flds, done) = Inr (rev done)"
| "tok_eof (IN_QUOTED_FIELD, cur, flds, done) = Inl ParserError"
| "tok_eof (st, cur, flds, done) = Inr (rev (end_line cur flds done))"

definition tokenize :: "string \<Rightarrow> error + string list list" where
  "tokenize text = tok_eof (foldl tok_step (START_RECORD, [], [], []) text)"

text \<open>
  The texts that \<^verbatim>\<open>read_csv\<close> reads as NaN by default. The first record is the header.
  The first data record fixes the width of the table: when it has more fields than the
  header, its first fields, as many as it has more, are the index of the table and belong
  to no column, in every record. A later record with more fields than the first is an
  error; a record with fewer fields is filled with NaN at its end.
\<close>

definition na_values :: "string list" where
  "na_values = ['''', ''#N/A'', ''#N/A N/A'', ''#NA'', ''-1.#IND'', ''-1.#QNAN'', ''-NaN'',
     ''-nan'', ''1.#IND'', ''1.#QNAN'', ''<NA>'', ''N/A'', ''NA'', ''NULL'', ''NaN'', ''None'',
     ''n/a'', ''nan'', ''null'']"

definition na_cell :: "string \<Rightarrow> cell" where
  "na_cell field = (if field \<in> set na_values then None else Some field)"

definition index_width :: "string list \<Rightarrow> string list list \<Rightarrow> nat" where
  "index_width header records =
     (case records of [] \<Rightarrow> 0 | r # rs \<Rightarrow> length r - length header)"

definition read_csv :: "string \<Rightarrow> error + string list \<times> cell list list" where
  "read_csv text =
     (case tokenize text of
        Inl e \<Rightarrow> Inl e
      | Inr [] \<Rightarrow> Inl EmptyDataError
      | Inr (header # records) \<Rightarrow>
          if list_ex (\<lambda>r. length header + index_width header records < length r) records
          then Inl ParserError
          else Inr (header, map (\<lambda>r. map na_cell (drop (index_width header records) r)) records))"

text \<open>
  Line 74: \<^verbatim>\<open>str.strip()\<close> removes white space at both ends (the white space characters
  below 256), then every space becomes an underscore and every period is removed.
  Line 76 drops the column of one fixed name if there is one.
\<close>

definition is_space :: "char \<Rightarrow> bool" where
  "is_space c \<longleftrightarrow>
     (9 \<le> (of_char c :: nat) \<and> (of_char c :: nat) \<le> 13) \<or>
     (28 \<le> (of_char c :: nat) \<and> (of_char c :: nat) \<le> 32) \<or>
     (of_char c :: nat) = 133 \<or> (of_char c :: nat) = 160"

definition strip :: "string \<Rightarrow> string" where
  "strip s = rev (dropWhile is_space (rev (dropWhile is_space s)))"

definition clean_column :: "string \<Rightarrow> string" where
  "clean_column name =
     filter (\<lambda>c. c \<noteq> CHR ''.'') (map (\<lambda>c. if c = CHR '' '' then CHR ''_'' else c) (strip name))"

definition problematic_column :: string where
  "problematic_column =
     [CHR 0xE8, CHR 0xAE, CHR 0xB0, CHR 0xE5, CHR 0xBD, CHR 0x93, CHR 0xE6, CHR 0x95, CHR 0xB0]"

definition col_index :: "string \<Rightarrow> string list \<Rightarrow> nat" where
  "col_index name header = length (takeWhile (\<lambda>h. h \<noteq> name) header)"

definition drop_nth :: "nat \<Rightarrow> 'a list \<Rightarrow> 'a list" where
  "drop_nth i xs = take i xs @ drop (Suc i) xs"

definition drop_column ::
  "string \<Rightarrow> string list \<times> cell list list \<Rightarrow> string list \<times> cell list list" where
  "drop_column name t =
     (case t of (header, records) \<Rightarrow>
        if name \<in> set header
        then (drop_nth (col_index name header) header,
              map (drop_nth (col_index name header)) records)
        else (header, records))"

definition cell_at :: "string \<Rightarrow> string list \<Rightarrow> cell list \<Rightarrow> cell" where
  "cell_at name header record =
     (if col_index name header < length record then record ! col_index name header else None)"

text \<open>
  A column of the table that \<^verbatim>\<open>read_csv\<close> returns. \<^verbatim>\<open>read_csv\<close> infers the type of
  every column from its cells: a column in which every cell that is not NaN reads as a
  number (or every one as a truth value) becomes a column of numbers (of truth values),
  and any other column stays a column of texts. The inference is a library function on a
  column, the parameter \<open>infer\<close>: it returns a column of texts as it is, and for a
  column that it converts it returns cells that stand for the converted values. It is
  applied to the six columns whose cells the script uses as they are, and to
  \<^verbatim>\<open>Month\<close>; for the two date columns and the two number columns the conversion is part
  of what the parsers \<open>to_datetime\<close> and \<open>to_numeric\<close> make of a cell.
\<close>

definition column :: "string \<Rightarrow> string list \<Rightarrow> cell list list \<Rightarrow> cell list" where
  "column name header records = map (cell_at name header) records"

definition nth_cell :: "cell list \<Rightarrow> nat \<Rightarrow> cell" where
  "nth_cell col i = (if i < length col then col ! i else None)"

definition raw_rows ::
  "(cell list \<Rightarrow> cell list) \<Rightarrow> string list \<Rightarrow> cell list list \<Rightarrow> raw_row list" where
  "raw_rows infer header records =
     map (\<lambda>i.
       \<lparr> OrderID = nth_cell (infer (column ''OrderID'' header records)) i,
         OrderDate = nth_cell (column ''OrderDate'' header records) i,
         ShipDate = nth_cell (column ''ShipDate'' header records) i,
         Sales = nth_cell (column ''Sales'' header records) i,
         Profit = nth_cell (column ''Profit'' header records) i,
         Region = nth_cell (infer (column ''Region'' header records)) i,
         Segment = nth_cell (infer (column ''Segment'' header records)) i,
         Category = nth_cell (infer (column ''Category'' header records)) i,
         SubCategory = nth_cell (infer (column ''SubCategory'' header records)) i,
         CustomerName = nth_cell (infer (column ''CustomerName'' header records)) i \<rparr>)
       [0..<length records]"

text \<open>
  Lines 72 to 82 on the text of a file: read, clean the column names, drop the problematic
  column, coerce the date and number columns. One of the nine columns that lines 78 to 84
  name and that is not in the file raises KeyError (a file without the column
  \<^verbatim>\<open>OrderID\<close> is read, with no order identifier in any row). The result keeps the
  column \<^verbatim>\<open>Month\<close> when the file has one. Line 84 then drops the rows with a missing
  mandatory field.
\<close>

definition loaded_columns :: "string list" where
  "loaded_columns = [''OrderDate'', ''ShipDate'', ''Sales'', ''Profit'', ''Region'',
     ''Segment'', ''Category'', ''SubCategory'', ''CustomerName'']"

definition read_frame ::
  "(cell list \<Rightarrow> cell list) \<Rightarrow> (string \<Rightarrow> date option) \<Rightarrow> (string \<Rightarrow> rat option) \<Rightarrow> string \<Rightarrow>
   error + frame" where
  "read_frame infer to_datetime to_numeric text =
     (case read_csv text of
        Inl e \<Rightarrow> Inl e
      | Inr (header0, records0) \<Rightarrow>
          (case drop_column problematic_column (map clean_column header0, records0) of
             (header, records) \<Rightarrow>
               if \<not> set loaded_columns \<subseteq> set header then Inl KeyError
               else
                 Inr \<lparr> rows = map (coerce to_datetime to_numeric) (raw_rows infer header records),
                       Month =
                         (if ''Month'' \<in> set header
                          then Some (infer (column ''Month'' header records))
                          else None) \<rparr>))"

definition dropna_frame :: "frame \<Rightarrow> frame" where
  "dropna_frame f = frame_getitem f (map notna_subset (rows f))"

definition loader_rules ::
  "(cell list \<Rightarrow> cell list) \<Rightarrow> (string \<Rightarrow> date option) \<Rightarrow> (string \<Rightarrow> rat option) \<Rightarrow> string \<Rightarrow>
   error + frame" where
  "loader_rules infer to_datetime to_numeric text =
     (case read_frame infer to_datetime to_numeric text of
        Inl e \<Rightarrow> Inl e
      | Inr f \<Rightarrow> Inr (dropna_frame f))"

definition reload ::
  "(cell list \<Rightarrow> cell list) \<Rightarrow> (string \<Rightarrow> date option) \<Rightarrow> (string \<Rightarrow> rat option) \<Rightarrow> string \<Rightarrow>
   error + frame" where
  "reload infer to_datetime to_numeric bytes =
     loader_rules infer to_datetime to_numeric (decode_latin1 bytes)"

section \<open>The DataFrame objects of a run\<close>

text \<open>
  DataFrames are objects and the variables \<^verbatim>\<open>df\<close> and \<^verbatim>\<open>df_filtered\<close> hold references to
  them (\<open>df_var\<close> and \<open>df_filtered_var\<close>). The store is the list of the objects made so
  far; a reference is a position in it. Three statements of the script make or change a
  DataFrame object: line 88 binds \<^verbatim>\<open>df\<close> to the loaded table; \<^verbatim>\<open>df[mask]\<close> makes a new
  object, a copy of the marked rows (line 121); \<^verbatim>\<open>df_filtered['Month'] = ...\<close> changes
  the object that \<^verbatim>\<open>df_filtered\<close> refers to (line 178). Every other statement reads the
  two objects: the selectors, the totals, the aggregations behind the charts and the
  export compute new values from them. Whether the charts are drawn without an error is
  not part of the model.
\<close>

record session =
  heap :: "frame list"
  df_var :: nat
  df_filtered_var :: nat

definition load_step ::
  "(string \<Rightarrow> date option) \<Rightarrow> (string \<Rightarrow> rat option) \<Rightarrow> raw_row list \<Rightarrow> frame list \<times> nat" where
  "load_step to_datetime to_numeric raw = ([new_frame (load_data to_datetime to_numeric raw)], 0)"

definition filter_step ::
  "frame list \<times> nat \<Rightarrow> cell list \<Rightarrow> cell list \<Rightarrow> cell list \<Rightarrow> session" where
  "filter_step st selected_regions selected_categories selected_subcategories =
     (case st of (h, d) \<Rightarrow>
        \<lparr> heap = h @ [frame_getitem (h ! d)
                        (filter_mask (rows (h ! d)) selected_regions selected_categories
                           selected_subcategories)],
          df_var = d,
          df_filtered_var = length h \<rparr>)"

definition month_step :: "astype_str \<Rightarrow> session \<Rightarrow> session" where
  "month_step v s =
     s \<lparr> heap := (heap s)[df_filtered_var s := assign_month v (heap s ! df_filtered_var s)] \<rparr>"

section \<open>Auxiliary definitions\<close>

subsection \<open>Cells and columns that are read back\<close>

text \<open>
  A row whose cells survive being written and read one by one: no text cell is one of the
  words that \<^verbatim>\<open>read_csv\<close> reads as NaN (in a table that \<^verbatim>\<open>read_csv\<close> has read, none
  is), and for every date and every number of the row, the text that the writer of its
  column makes of it is no such word and is read back by the parser as that date or
  number.
\<close>

definition reads_back ::
  "(string \<Rightarrow> date option) \<Rightarrow> (string \<Rightarrow> rat option) \<Rightarrow> formats \<Rightarrow> row \<Rightarrow> bool" where
  "reads_back to_datetime to_numeric w r \<longleftrightarrow>
     (\<forall>s. Some s \<in> set [OrderID r, Region r, Segment r, Category r, SubCategory r,
                            CustomerName r] \<longrightarrow> s \<notin> set na_values) \<and>
     (\<forall>d. OrderDate r = Some d \<longrightarrow>
          order_date_repr w d \<notin> set na_values \<and> to_datetime (order_date_repr w d) = Some d) \<and>
     (\<forall>d. ShipDate r = Some d \<longrightarrow>
          ship_date_repr w d \<notin> set na_values \<and> to_datetime (ship_date_repr w d) = Some d) \<and>
     (\<forall>x. Sales r = Some x \<longrightarrow>
          sales_repr w x \<notin> set na_values \<and> to_numeric (sales_repr w x) = Some x) \<and>
     (\<forall>x. Profit r = Some x \<longrightarrow>
          profit_repr w x \<notin> set na_values \<and> to_numeric (profit_repr w x) = Some x)"

text \<open>
  A table whose text columns the type inference of \<^verbatim>\<open>read_csv\<close> leaves as they are:
  none of them would be read as a column of numbers or of truth values.
\<close>

definition keeps_texts :: "(cell list \<Rightarrow> cell list) \<Rightarrow> frame \<Rightarrow> bool" where
  "keeps_texts infer f \<longleftrightarrow>
     infer (map OrderID (rows f)) = map OrderID (rows f) \<and>
     infer (map Region (rows f)) = map Region (rows f) \<and>
     infer (map Segment (rows f)) = map Segment (rows f) \<and>
     infer (map Category (rows f)) = map Category (rows f) \<and>
     infer (map SubCategory (rows f)) = map SubCategory (rows f) \<and>
     infer (map CustomerName (rows f)) = map CustomerName (rows f) \<and>
     (case Month f of None \<Rightarrow> True | Some ms \<Rightarrow> infer ms = ms)"

subsection \<open>The tie rule of the specification\<close>



section \<open>Example data\<close>

text \<open>
  Two parsers for the example rows: they read the few texts the examples use and reject
  every other text, as the library parsers reject a text that is no date or no number.
\<close>

definition example_to_datetime :: "string \<Rightarrow> date option" where
  "example_to_datetime s =
     (if s = ''2020-01-15'' then Some \<lparr> year = 2020, month = 1, day = 15 \<rparr>
      else if s = ''2020-01-28'' then Some \<lparr> year = 2020, month = 1, day = 28 \<rparr>
      else if s = ''2019-12-31'' then Some \<lparr> year = 2019, month = 12, day = 31 \<rparr>
      else None)"

definition example_to_numeric :: "string \<Rightarrow> rat option" where
  "example_to_numeric s =
     (if s = ''100'' \<or> s = ''100.0'' then Some 100
      else if s = ''50'' \<or> s = ''50.0'' then Some 50
      else if s = ''30'' \<or> s = ''30.0'' then Some 30
      else if s = ''-5'' \<or> s = ''-5.0'' then Some (- 5)
      else None)"

text \<open>
  The writers of the examples: a date of a column in which every timestamp is midnight,
  as year, month and day, and the four numbers of the examples as \<^verbatim>\<open>repr\<close> writes a
  float.
\<close>

definition iso_date :: "date \<Rightarrow> string" where
  "iso_date d =
     [digit (year d div 1000), digit (year d div 100), digit (year d div 10), digit (year d),
      CHR ''-'', digit (month d div 10), digit (month d),
      CHR ''-'', digit (day d div 10), digit (day d)]"

definition example_float_repr :: "rat \<Rightarrow> string" where
  "example_float_repr x =
     (if x = 100 then ''100.0'' else if x = 50 then ''50.0'' else if x = 30 then ''30.0''
      else if x = - 5 then ''-5.0'' else ''0.0'')"

definition example_formats :: formats where
  "example_formats =
     \<lparr> order_date_repr = iso_date, ship_date_repr = iso_date,
       sales_repr = example_float_repr, profit_repr = example_float_repr \<rparr>"

definition raw_order :: "string \<Rightarrow> string \<Rightarrow> string \<Rightarrow> string \<Rightarrow> string \<Rightarrow> raw_row" where
  "raw_order oid odate customer sales profit =
     \<lparr> OrderID = Some oid, OrderDate = Some odate, ShipDate = None,
       Sales = Some sales, Profit = Some profit,
       Region = Some ''West'', Segment = Some ''Consumer'', Category = Some ''Furniture'',
       SubCategory = Some ''Chairs'', CustomerName = Some customer \<rparr>"

definition order :: "string \<Rightarrow> date option \<Rightarrow> string \<Rightarrow> rat \<Rightarrow> rat \<Rightarrow> row" where
  "order oid odate customer sales profit =
     \<lparr> OrderID = Some oid, OrderDate = odate, ShipDate = None,
       Sales = Some sales, Profit = Some profit,
       Region = Some ''West'', Segment = Some ''Consumer'', Category = Some ''Furniture'',
       SubCategory = Some ''Chairs'', CustomerName = Some customer \<rparr>"

text \<open>
  A filtered subset of one record, after line 178, for a given customer name.
\<close>

definition example_subset :: "string \<Rightarrow> frame" where
  "example_subset customer =
     assign_month NaT_text (new_frame
       [order ''O1'' (Some \<lparr> year = 2020, month = 1, day = 15 \<rparr>) customer 100 30])"

section \<open>Properties\<close>

lemma boolean_index_map:
  "boolean_index xs (map P xs) = filter P xs"
  by (induction xs) (simp_all add: boolean_index_def)

lemma mask_and_map:
  "mask_and (map P xs) (map Q xs) = map (\<lambda>x. P x \<and> Q x) xs"
  by (induction xs) (simp_all add: mask_and_def)

lemma apply_filters_filter:
  "apply_filters df R C S =
     filter (\<lambda>r. Region r \<in> set R \<and> Category r \<in> set C \<and> SubCategory r \<in> set S) df"
proof -
  have "filter_mask df R C S =
        map (\<lambda>r. (Region r \<in> set R \<and> Category r \<in> set C) \<and> SubCategory r \<in> set S) df"
    by (simp add: filter_mask_def isin_def mask_and_map o_def)
  then show ?thesis
    by (simp add: apply_filters_def boolean_index_map conj_assoc)
qed

text \<open>
  C1. A record of the table is in the filtered subset exactly when its Region is among the
  selected regions, its Category among the selected categories and its SubCategory among
  the selected sub-categories; the subset is the table's records with that property, in the
  table's order; and when one of the three selections is empty the subset is empty, whatever
  the other two are.
\<close>

theorem apply_filters_conjunction:
  "(r \<in> set (apply_filters df R C S) \<longleftrightarrow>
      r \<in> set df \<and> Region r \<in> set R \<and> Category r \<in> set C \<and> SubCategory r \<in> set S)
   \<and> apply_filters df R C S =
      filter (\<lambda>r. Region r \<in> set R \<and> Category r \<in> set C \<and> SubCategory r \<in> set S) df
   \<and> apply_filters df [] C S = []
   \<and> apply_filters df R [] S = []
   \<and> apply_filters df R C [] = []"
  by (simp add: apply_filters_filter)

subsection \<open>The loader leaves no missing mandatory field\<close>

lemma notna_load_data:
  "r \<in> set (load_data td tn raw) \<Longrightarrow> notna_subset r"
  by (simp add: load_data_def dropna_def)

lemma notna_column:
  assumes "\<And>r. r \<in> set df \<Longrightarrow> col r \<noteq> None"
  shows "None \<notin> set (map col df)"
proof
  assume "None \<in> set (map col df)"
  then obtain r where "r \<in> set df" "col r = None"
    unfolding set_map image_iff by metis
  with assms show False by blast
qed

lemma notna_load_data_columns:
  "None \<notin> set (map Region (load_data td tn raw))"
  "None \<notin> set (map Category (load_data td tn raw))"
  "None \<notin> set (map SubCategory (load_data td tn raw))"
proof -
  have *: "\<And>r. r \<in> set (load_data td tn raw) \<Longrightarrow> notna_subset r"
    by (rule notna_load_data)
  show "None \<notin> set (map Region (load_data td tn raw))"
    by (rule notna_column) (use * in \<open>simp add: notna_subset_def\<close>)
  show "None \<notin> set (map Category (load_data td tn raw))"
    by (rule notna_column) (use * in \<open>simp add: notna_subset_def\<close>)
  show "None \<notin> set (map SubCategory (load_data td tn raw))"
    by (rule notna_column) (use * in \<open>simp add: notna_subset_def\<close>)
qed

text \<open>
  C2. Whatever the parsers and the raw table, every record that \<open>load_data\<close> returns has
  a Sales, a Profit, a Region, a Segment, a Category, a SubCategory and a CustomerName,
  none of them missing.
\<close>

theorem load_data_no_missing:
  "\<forall>r \<in> set (load_data to_datetime to_numeric raw).
     Sales r \<noteq> None \<and> Profit r \<noteq> None \<and> Region r \<noteq> None \<and> Segment r \<noteq> None \<and>
     Category r \<noteq> None \<and> SubCategory r \<noteq> None \<and> CustomerName r \<noteq> None"
proof
  fix r assume "r \<in> set (load_data to_datetime to_numeric raw)"
  then have "notna_subset r" by (rule notna_load_data)
  then show "Sales r \<noteq> None \<and> Profit r \<noteq> None \<and> Region r \<noteq> None \<and> Segment r \<noteq> None \<and>
     Category r \<noteq> None \<and> SubCategory r \<noteq> None \<and> CustomerName r \<noteq> None"
    unfolding notna_subset_def .
qed

text \<open>
  Of two raw rows, the second with a Sales text that is no number, the loader keeps the
  first only, and the seven fields of the row it keeps are present.
\<close>

theorem load_data_no_missing_witness:
  "load_data example_to_datetime example_to_numeric
     [raw_order ''O1'' ''2020-01-15'' ''A'' ''100'' ''30'',
      raw_order ''O2'' ''2020-01-28'' ''B'' ''n/a'' ''30'']
   = [order ''O1'' (Some \<lparr> year = 2020, month = 1, day = 15 \<rparr>) ''A'' 100 30]
   \<and> Sales (order ''O1'' (Some \<lparr> year = 2020, month = 1, day = 15 \<rparr>) ''A'' 100 30) \<noteq> None
   \<and> Profit (order ''O1'' (Some \<lparr> year = 2020, month = 1, day = 15 \<rparr>) ''A'' 100 30) \<noteq> None
   \<and> Region (order ''O1'' (Some \<lparr> year = 2020, month = 1, day = 15 \<rparr>) ''A'' 100 30) \<noteq> None
   \<and> Segment (order ''O1'' (Some \<lparr> year = 2020, month = 1, day = 15 \<rparr>) ''A'' 100 30) \<noteq> None
   \<and> Category (order ''O1'' (Some \<lparr> year = 2020, month = 1, day = 15 \<rparr>) ''A'' 100 30) \<noteq> None
   \<and> SubCategory (order ''O1'' (Some \<lparr> year = 2020, month = 1, day = 15 \<rparr>) ''A'' 100 30) \<noteq> None
   \<and> CustomerName (order ''O1'' (Some \<lparr> year = 2020, month = 1, day = 15 \<rparr>) ''A'' 100 30) \<noteq> None"
  using load_data_no_missing [of example_to_datetime example_to_numeric
     "[raw_order ''O1'' ''2020-01-15'' ''A'' ''100'' ''30'',
       raw_order ''O2'' ''2020-01-28'' ''B'' ''n/a'' ''30'']"]
  by (simp add: load_data_def dropna_def coerce_def coerce_cell_def notna_subset_def
      raw_order_def order_def example_to_datetime_def example_to_numeric_def)

subsection \<open>The default selection\<close>

lemma set_map_filter_id:
  "None \<notin> set xs \<Longrightarrow> Some ` set (List.map_filter id xs) = set xs"
  by (induction xs) (auto simp: List.map_filter_simps split: option.splits)

lemma set_sorted_unique:
  "sorted_unique col = Inr vals \<Longrightarrow> set vals = set col"
proof (cases "None \<in> set col")
  case True
  assume "sorted_unique col = Inr vals"
  with True have "vals = remdups col"
    by (simp add: sorted_unique_def Let_def split: if_splits)
  then show ?thesis by simp
next
  case False
  assume "sorted_unique col = Inr vals"
  with False have "vals = map Some (sort (List.map_filter id (remdups col)))"
    by (simp add: sorted_unique_def Let_def)
  then have "set vals = Some ` set (List.map_filter id (remdups col))"
    by simp
  also have "\<dots> = set (remdups col)"
    using False by (intro set_map_filter_id) simp
  finally show ?thesis by simp
qed

lemma sorted_unique_notna:
  "None \<notin> set col \<Longrightarrow> \<exists>vals. sorted_unique col = Inr vals"
  by (simp add: sorted_unique_def Let_def)

lemma apply_filters_all:
  assumes "set (map Region df) \<subseteq> set R" "set (map Category df) \<subseteq> set C"
    "set (map SubCategory df) \<subseteq> set S"
  shows "apply_filters df R C S = df"
proof -
  have "\<And>r. r \<in> set df \<Longrightarrow> Region r \<in> set R \<and> Category r \<in> set C \<and> SubCategory r \<in> set S"
    using assms by auto
  then show ?thesis
    unfolding apply_filters_filter by (simp add: filter_id_conv)
qed

text \<open>
  C7. For every table that \<open>load_data\<close> returns, the three default selections (the sorted
  distinct values of Region, of Category and of SubCategory in that table) are computed
  without error, and filtering the table by them returns the table itself: every record, in
  the same order.
\<close>

theorem default_selection_identity:
  "\<exists>R C S. sorted_unique (map Region (load_data to_datetime to_numeric raw)) = Inr R
     \<and> sorted_unique (map Category (load_data to_datetime to_numeric raw)) = Inr C
     \<and> sorted_unique (map SubCategory (load_data to_datetime to_numeric raw)) = Inr S
     \<and> apply_filters (load_data to_datetime to_numeric raw) R C S
         = load_data to_datetime to_numeric raw"
proof -
  let ?df = "load_data to_datetime to_numeric raw"
  obtain R where R: "sorted_unique (map Region ?df) = Inr R"
    using sorted_unique_notna [OF notna_load_data_columns(1)] by blast
  obtain C where C: "sorted_unique (map Category ?df) = Inr C"
    using sorted_unique_notna [OF notna_load_data_columns(2)] by blast
  obtain S where S: "sorted_unique (map SubCategory ?df) = Inr S"
    using sorted_unique_notna [OF notna_load_data_columns(3)] by blast
  have "set (map Region ?df) \<subseteq> set R" "set (map Category ?df) \<subseteq> set C"
    "set (map SubCategory ?df) \<subseteq> set S"
    using R C S by (simp_all only: set_sorted_unique subset_refl)
  then have "apply_filters ?df R C S = ?df"
    by (rule apply_filters_all)
  with R C S show ?thesis by blast
qed

subsection \<open>The empty subset\<close>

text \<open>
  C6. On the empty subset the top five customers, the sales by segment, the monthly trend
  (computed, with no error, once the Month column is assigned), the sales by region and
  by category and the top ten sub-categories by profit are all empty; the total of Sales
  and the total of Profit are 0 and the number of distinct orders is 0. This holds for
  every way of ordering equal values and for both versions of \<^verbatim>\<open>astype(str)\<close>.
\<close>

theorem empty_subset_aggregations:
  "top_customers tie [] = [] \<and> segment_sales [] = []
   \<and> monthly (assign_month v (new_frame [])) = Inr []
   \<and> region_sales tie [] = [] \<and> category_sales tie [] = [] \<and> subcategory_profit tie [] = []
   \<and> total_sales [] = 0 \<and> total_profit [] = 0 \<and> total_orders [] = 0"
  by (simp add: top_customers_def segment_sales_def monthly_def assign_month_def new_frame_def
      region_sales_def category_sales_def subcategory_profit_def total_sales_def total_profit_def
      total_orders_def head_def sort_values_desc_def groupby_sum_def groupby_month_sum_def
      group_keys_def sum_skipna_def nunique_def List.map_filter_simps)

subsection \<open>Grouping and ranking\<close>

lemma set_map_filter_key:
  "set (List.map_filter key rs) = {k. \<exists>r \<in> set rs. key r = Some k}"
  by (induction rs) (auto simp: List.map_filter_simps split: option.splits)

lemma set_group_keys:
  "set (group_keys key rs) = {k. \<exists>r \<in> set rs. key r = Some k}"
  by (simp add: group_keys_def set_map_filter_key)

lemma distinct_group_keys: "distinct (group_keys key rs)"
  by (simp add: group_keys_def)

lemma sorted_group_keys: "sorted (group_keys key rs)"
  by (simp add: group_keys_def)

lemma strict_sorted_group_keys: "sorted_wrt (<) (group_keys key rs)"
  by (simp add: strict_sorted_iff sorted_group_keys distinct_group_keys)


lemma set_sort_values_desc: "set (sort_values_desc tie s) = set s"
  by (simp add: sort_values_desc_def)

lemma sort_values_desc_descending:
  "sorted_wrt (\<lambda>a b. snd b \<le> snd a) (sort_values_desc tie s)"
proof -
  have "sorted (map snd (sort_key snd (rev (sort_key (\<lambda>e. tie (fst e)) s))))"
    by (rule sorted_sort_key)
  then have "sorted_wrt (\<lambda>a b. snd a \<le> snd b) (sort_key snd (rev (sort_key (\<lambda>e. tie (fst e)) s)))"
    by (simp add: sorted_map)
  then show ?thesis
    by (simp add: sort_values_desc_def sorted_wrt_rev)
qed


lemma key_image_conv:
  "(\<exists>r \<in> set rs. key r = Some k) \<longleftrightarrow> Some k \<in> key ` set rs"
  by force



lemma sorted_wrt_ties:
  fixes f :: "'a \<Rightarrow> rat"
  assumes "sorted_wrt (\<lambda>a b. f b \<le> f a) xs"
    and "\<And>v. sorted_wrt Q (filter (\<lambda>x. f x = v) xs)"
  shows "sorted_wrt (\<lambda>a b. f b < f a \<or> (f a = f b \<and> Q a b)) xs"
  using assms
proof (induction xs)
  case Nil
  then show ?case by simp
next
  case (Cons x xs)
  have tail: "sorted_wrt (\<lambda>a b. f b < f a \<or> (f a = f b \<and> Q a b)) xs"
  proof (rule Cons.IH)
    show "sorted_wrt (\<lambda>a b. f b \<le> f a) xs"
      using Cons.prems(1) by simp
    fix v
    show "sorted_wrt Q (filter (\<lambda>x. f x = v) xs)"
      using Cons.prems(2) [of v] by (simp split: if_splits)
  qed
  have "f y < f x \<or> (f x = f y \<and> Q x y)" if "y \<in> set xs" for y
  proof (cases "f y = f x")
    case True
    have "sorted_wrt Q (x # filter (\<lambda>z. f z = f x) xs)"
      using Cons.prems(2) [of "f x"] by simp
    with True that show ?thesis by simp
  next
    case False
    moreover have "f y \<le> f x" using Cons.prems(1) that by simp
    ultimately show ?thesis by simp
  qed
  with tail show ?case by simp
qed

lemma sort_values_desc_stable:
  "filter (\<lambda>x. snd x = v) (sort_values_desc tie s)
   = filter (\<lambda>x. snd x = v) (sort_key (\<lambda>e. tie (fst e)) s)"
  by (simp add: sort_values_desc_def rev_filter [symmetric] sort_key_stable)

text \<open>
  Two arrangements of the same entries that are both in the order of an asymmetric
  relation are the same list.
\<close>

lemma sorted_wrt_unique:
  assumes "\<And>a b. R a b \<Longrightarrow> \<not> R b a"
    and "sorted_wrt R xs" "sorted_wrt R ys" "set xs = set ys"
  shows "xs = ys"
  using assms(2-)
proof (induction xs arbitrary: ys)
  case Nil
  then show ?case by simp
next
  case (Cons x xs)
  from Cons.prems(3) obtain y ys' where ys: "ys = y # ys'"
    by (cases ys) auto
  have irrefl: "\<not> R a a" for a using assms(1) by blast
  have x_notin: "x \<notin> set xs" using Cons.prems(1) irrefl by auto
  have y_notin: "y \<notin> set ys'" using Cons.prems(2) irrefl unfolding ys by auto
  have "x = y"
  proof (rule ccontr)
    assume ne: "x \<noteq> y"
    have "x \<in> set ys'" using Cons.prems(3) ne unfolding ys by auto
    then have "R y x" using Cons.prems(2) unfolding ys by simp
    moreover have "y \<in> set xs" using Cons.prems(3) ne unfolding ys by auto
    then have "R x y" using Cons.prems(1) by simp
    ultimately show False using assms(1) by blast
  qed
  moreover have "xs = ys'"
  proof (rule Cons.IH)
    show "sorted_wrt R xs" using Cons.prems(1) by simp
    show "sorted_wrt R ys'" using Cons.prems(2) unfolding ys by simp
    show "set xs = set ys'"
      using Cons.prems(3) x_notin y_notin \<open>x = y\<close> unfolding ys by auto
  qed
  ultimately show ?case unfolding ys by simp
qed

lemma index_nth:
  "distinct xs \<Longrightarrow> i < length xs \<Longrightarrow> length (takeWhile (\<lambda>x. x \<noteq> xs ! i) xs) = i"
proof (induction xs arbitrary: i)
  case Nil
  then show ?case by simp
next
  case (Cons x xs)
  show ?case
  proof (cases i)
    case 0
    then show ?thesis by simp
  next
    case (Suc n)
    with Cons.prems have n: "n < length xs" and d: "distinct xs" and x: "x \<notin> set xs" by simp_all
    from n x have "xs ! n \<noteq> x" by (metis nth_mem)
    with Suc Cons.IH [OF d n] show ?thesis by simp
  qed
qed

lemma sorted_wrt_strict_key:
  fixes f :: "'a \<Rightarrow> nat"
  assumes "distinct (map f s)"
  shows "sorted_wrt (\<lambda>a b. f a < f b) (sort_key f s)"
proof -
  have "sorted (map f (sort_key f s))" by (rule sorted_sort_key)
  moreover have "distinct (map f (sort_key f s))"
    using assms by (simp add: distinct_map)
  ultimately have "sorted_wrt (<) (map f (sort_key f s))"
    by (simp add: strict_sorted_iff)
  then show ?thesis by (simp add: sorted_wrt_map)
qed

lemma sort_values_desc_ranked:
  assumes "distinct (map (\<lambda>e. tie (fst e)) s)"
  shows "sorted_wrt (\<lambda>a b. snd b < snd a \<or> (snd a = snd b \<and> tie (fst a) < tie (fst b)))
           (sort_values_desc tie s)"
proof (rule sorted_wrt_ties [OF sort_values_desc_descending])
  fix v
  have "sorted_wrt (\<lambda>a b. tie (fst a) < tie (fst b)) (sort_key (\<lambda>e. tie (fst e)) s)"
    by (rule sorted_wrt_strict_key [OF assms])
  then show "sorted_wrt (\<lambda>a b. tie (fst a) < tie (fst b))
      (filter (\<lambda>x. snd x = v) (sort_values_desc tie s))"
    unfolding sort_values_desc_stable by (rule sorted_wrt_filter)
qed

lemma sort_values_desc_any:
  assumes "distinct (map fst s)" "set L = set s" "distinct (map fst L)"
    and "sorted_wrt (\<lambda>a b. snd b \<le> snd a) L"
  shows "\<exists>tie. sort_values_desc tie s = L"
proof -
  define tie where "tie k = length (takeWhile (\<lambda>x. x \<noteq> k) (map fst L))" for k
  let ?R = "\<lambda>a b :: 'a \<times> rat. snd b < snd a \<or> (snd a = snd b \<and> tie (fst a) < tie (fst b))"
  have pos: "tie (fst (L ! i)) = i" if "i < length L" for i
    using index_nth [OF assms(3), of i] that by (simp add: tie_def)
  have inj: "inj_on tie (fst ` set L)"
  proof (rule inj_onI)
    fix a b assume "a \<in> fst ` set L" "b \<in> fst ` set L" and eq: "tie a = tie b"
    then obtain i j where i: "i < length L" "a = fst (L ! i)" and j: "j < length L" "b = fst (L ! j)"
      by (auto simp: in_set_conv_nth)
    with eq pos show "a = b" by simp
  qed
  have dL: "distinct L" using assms(3) by (simp add: distinct_map)
  have ds: "distinct s" using assms(1) by (simp add: distinct_map)
  have "inj_on tie (set (map fst s))"
    using inj assms(2) by simp
  with assms(1) have "distinct (map tie (map fst s))"
    by (simp only: distinct_map)
  then have d: "distinct (map (\<lambda>e. tie (fst e)) s)" by (simp add: o_def)
  have 1: "sorted_wrt ?R (sort_values_desc tie s)"
    by (rule sort_values_desc_ranked [OF d])
  have 2: "sorted_wrt ?R L"
    unfolding sorted_wrt_iff_nth_less
  proof (intro allI impI)
    fix i j assume ij: "i < j" "j < length L"
    then have "snd (L ! j) \<le> snd (L ! i)"
      using assms(4) by (simp add: sorted_wrt_iff_nth_less)
    moreover have "tie (fst (L ! i)) < tie (fst (L ! j))"
      using ij pos by simp
    ultimately show "?R (L ! i) (L ! j)" by auto
  qed
  have "sort_values_desc tie s = L"
  proof (rule sorted_wrt_unique [of ?R])
    show "\<And>a b. ?R a b \<Longrightarrow> \<not> ?R b a" by auto
    show "sorted_wrt ?R (sort_values_desc tie s)" by (rule 1)
    show "sorted_wrt ?R L" by (rule 2)
    show "set (sort_values_desc tie s) = set L"
      using assms(2) by (simp add: set_sort_values_desc)
  qed
  then show ?thesis by blast
qed




subsection \<open>Month buckets\<close>

lemma of_char_digit: "of_char (digit n) = (48 + n mod 10 :: nat)"
  by (simp add: digit_def)

lemma digit_less [simp]: "digit a < digit b \<longleftrightarrow> a mod 10 < b mod 10"
  by (simp add: less_char_def of_char_digit)

lemma digit_eq [simp]: "digit a = digit b \<longleftrightarrow> a mod 10 = b mod 10"
proof
  assume "digit a = digit b"
  then have "(of_char (digit a) :: nat) = of_char (digit b)" by simp
  then show "a mod 10 = b mod 10" by (simp add: of_char_digit)
next
  assume "a mod 10 = b mod 10"
  then show "digit a = digit b" by (simp add: digit_def)
qed

lemma digit_less_N: "digit n < CHR ''N''"
  by (simp add: less_char_def of_char_digit)

lemma digit_neq_N: "digit n \<noteq> CHR ''N''"
  using digit_less_N [of n] by simp

lemma digits_split:
  fixes a :: nat
  obtains q r where "a = 10 * q + r" "r < 10" "a div 10 = q" "a mod 10 = r"
proof
  show "a = 10 * (a div 10) + a mod 10" by simp
  show "a mod 10 < 10" by simp
qed simp_all

lemma less_by_digit:
  fixes a b :: nat
  shows "a < b \<longleftrightarrow> a div 10 < b div 10 \<or> (a div 10 = b div 10 \<and> a mod 10 < b mod 10)"
proof -
  obtain q r where a: "a = 10 * q + r" "r < 10" "a div 10 = q" "a mod 10 = r"
    by (rule digits_split)
  obtain q' r' where b: "b = 10 * q' + r'" "r' < 10" "b div 10 = q'" "b mod 10 = r'"
    by (rule digits_split)
  have "10 * q + r < 10 * q' + r' \<longleftrightarrow> q < q' \<or> (q = q' \<and> r < r')"
    using a(2) b(2) by linarith
  then show ?thesis
    unfolding a(3,4) b(3,4) using a(1) b(1) by simp
qed

lemma eq_by_digit:
  fixes a b :: nat
  shows "a = b \<longleftrightarrow> a div 10 = b div 10 \<and> a mod 10 = b mod 10"
proof
  assume "a = b"
  then show "a div 10 = b div 10 \<and> a mod 10 = b mod 10" by simp
next
  assume "a div 10 = b div 10 \<and> a mod 10 = b mod 10"
  then show "a = b" by (metis div_mult_mod_eq)
qed

lemma div_10_10: "n div 10 div 10 = n div 100" and div_100_10: "n div 100 div 10 = n div 1000"
  for n :: nat
  by (simp_all add: div_mult2_eq [symmetric])

lemma four_digits_less:
  fixes a b :: nat
  assumes "a < 10000" "b < 10000"
  shows "a < b \<longleftrightarrow>
     a div 1000 mod 10 < b div 1000 mod 10 \<or> (a div 1000 mod 10 = b div 1000 mod 10 \<and>
     (a div 100 mod 10 < b div 100 mod 10 \<or> (a div 100 mod 10 = b div 100 mod 10 \<and>
     (a div 10 mod 10 < b div 10 mod 10 \<or> (a div 10 mod 10 = b div 10 mod 10 \<and>
      a mod 10 < b mod 10)))))"
proof -
  have l1: "a < b \<longleftrightarrow> a div 10 < b div 10 \<or> (a div 10 = b div 10 \<and> a mod 10 < b mod 10)"
    by (rule less_by_digit)
  have l2: "a div 10 < b div 10 \<longleftrightarrow>
      a div 100 < b div 100 \<or> (a div 100 = b div 100 \<and> a div 10 mod 10 < b div 10 mod 10)"
    using less_by_digit [of "a div 10" "b div 10"] by (simp only: div_10_10)
  have l3: "a div 100 < b div 100 \<longleftrightarrow>
      a div 1000 < b div 1000 \<or> (a div 1000 = b div 1000 \<and> a div 100 mod 10 < b div 100 mod 10)"
    using less_by_digit [of "a div 100" "b div 100"] by (simp only: div_100_10)
  have e2: "a div 10 = b div 10 \<longleftrightarrow>
      a div 100 = b div 100 \<and> a div 10 mod 10 = b div 10 mod 10"
    using eq_by_digit [of "a div 10" "b div 10"] by (simp only: div_10_10)
  have e3: "a div 100 = b div 100 \<longleftrightarrow>
      a div 1000 = b div 1000 \<and> a div 100 mod 10 = b div 100 mod 10"
    using eq_by_digit [of "a div 100" "b div 100"] by (simp only: div_100_10)
  have top: "a div 1000 mod 10 = a div 1000" "b div 1000 mod 10 = b div 1000"
    using assms by simp_all
  show ?thesis
    unfolding top using l1 l2 l3 e2 e3 by blast
qed

lemma four_digits_eq:
  fixes a b :: nat
  assumes "a < 10000" "b < 10000"
  shows "a = b \<longleftrightarrow>
     a div 1000 mod 10 = b div 1000 mod 10 \<and> a div 100 mod 10 = b div 100 mod 10 \<and>
     a div 10 mod 10 = b div 10 mod 10 \<and> a mod 10 = b mod 10"
proof -
  have e1: "a = b \<longleftrightarrow> a div 10 = b div 10 \<and> a mod 10 = b mod 10"
    by (rule eq_by_digit)
  have e2: "a div 10 = b div 10 \<longleftrightarrow>
      a div 100 = b div 100 \<and> a div 10 mod 10 = b div 10 mod 10"
    using eq_by_digit [of "a div 10" "b div 10"] by (simp only: div_10_10)
  have e3: "a div 100 = b div 100 \<longleftrightarrow>
      a div 1000 = b div 1000 \<and> a div 100 mod 10 = b div 100 mod 10"
    using eq_by_digit [of "a div 100" "b div 100"] by (simp only: div_100_10)
  have top: "a div 1000 mod 10 = a div 1000" "b div 1000 mod 10 = b div 1000"
    using assms by simp_all
  show ?thesis
    unfolding top using e1 e2 e3 by blast
qed

lemma two_digits_less:
  fixes a b :: nat
  assumes "a < 100" "b < 100"
  shows "a < b \<longleftrightarrow>
     a div 10 mod 10 < b div 10 mod 10 \<or> (a div 10 mod 10 = b div 10 mod 10 \<and> a mod 10 < b mod 10)"
proof -
  have top: "a div 10 mod 10 = a div 10" "b div 10 mod 10 = b div 10"
    using assms by simp_all
  show ?thesis unfolding top by (rule less_by_digit)
qed

lemma two_digits_eq:
  fixes a b :: nat
  assumes "a < 100" "b < 100"
  shows "a = b \<longleftrightarrow> a div 10 mod 10 = b div 10 mod 10 \<and> a mod 10 = b mod 10"
proof -
  have top: "a div 10 mod 10 = a div 10" "b div 10 mod 10 = b div 10"
    using assms by simp_all
  show ?thesis unfolding top by (rule eq_by_digit)
qed

lemma month_str_less:
  assumes "valid_date d" "valid_date d'"
  shows "month_str d < month_str d' \<longleftrightarrow>
     year d < year d' \<or> (year d = year d' \<and> month d < month d')"
proof -
  have y: "year d < 10000" "year d' < 10000" and m: "month d < 100" "month d' < 100"
    using assms by (simp_all add: valid_date_def)
  show ?thesis
    unfolding four_digits_less [OF y] four_digits_eq [OF y] two_digits_less [OF m]
    by (simp add: month_str_def) blast
qed

lemma month_str_eq:
  assumes "valid_date d" "valid_date d'"
  shows "month_str d = month_str d' \<longleftrightarrow> year d = year d' \<and> month d = month d'"
proof -
  have y: "year d < 10000" "year d' < 10000" and m: "month d < 100" "month d' < 100"
    using assms by (simp_all add: valid_date_def)
  show ?thesis
    unfolding four_digits_eq [OF y] two_digits_eq [OF m]
    by (simp add: month_str_def)
qed

lemma month_str_less_NaT: "month_str d < ''NaT''"
  by (simp add: month_str_def digit_less_N)

lemma month_str_neq_NaT: "month_str d \<noteq> ''NaT''"
  by (simp add: month_str_def)

lemma zip_map_self: "zip (map g rs) rs = map (\<lambda>r. (g r, r)) rs"
  by (induction rs) simp_all

lemma get_group_zip:
  "get_group fst (map (\<lambda>r. (g r, r)) rs) k = map (\<lambda>r. (g r, r)) (filter (\<lambda>r. g r = Some k) rs)"
  by (induction rs) (simp_all add: get_group_def)

lemma group_keys_zip:
  "group_keys fst (map (\<lambda>r. (g r, r)) rs) = group_keys g rs"
proof -
  have "List.map_filter fst (map (\<lambda>r. (g r, r)) rs) = List.map_filter g rs"
    by (induction rs) (simp_all add: List.map_filter_simps split: option.splits)
  then show ?thesis by (simp add: group_keys_def)
qed

lemma monthly_assign_month:
  "monthly (assign_month v (new_frame rs)) =
     Inr (map (\<lambda>k. (k, sum_skipna (map Sales (filter (\<lambda>r. month_of v r = Some k) rs)),
                       sum_skipna (map Profit (filter (\<lambda>r. month_of v r = Some k) rs))))
              (group_keys (month_of v) rs))"
  by (simp add: monthly_def assign_month_def new_frame_def groupby_month_sum_def zip_map_self
      get_group_zip group_keys_zip o_def)

lemma set_group_keys_image:
  "set (group_keys g rs) = {k. Some k \<in> g ` set rs}"
  unfolding set_group_keys key_image_conv by (rule refl)

lemma sorted_max_last:
  fixes m :: "'a::linorder"
  assumes "sorted_wrt (<) ks" "m \<in> set ks" "\<And>k. k \<in> set ks \<Longrightarrow> k \<le> m"
  shows "\<exists>ts. ks = ts @ [m] \<and> (\<forall>k \<in> set ts. k < m)"
  using assms
proof (induction ks)
  case Nil
  then show ?case by simp
next
  case (Cons x xs)
  show ?case
  proof (cases "xs = []")
    case True
    with Cons.prems(2) have "x # xs = [] @ [m]" by simp
    then show ?thesis by (metis empty_iff list.set(1))
  next
    case False
    then obtain y where y: "y \<in> set xs" by (cases xs) auto
    have "x < y" using Cons.prems(1) y by simp
    moreover have "y \<le> m" using Cons.prems(3) y by simp
    ultimately have "x < m" by simp
    then have "m \<in> set xs" using Cons.prems(2) by auto
    moreover have "sorted_wrt (<) xs" using Cons.prems(1) by simp
    moreover have "\<And>k. k \<in> set xs \<Longrightarrow> k \<le> m" using Cons.prems(3) by simp
    ultimately obtain ts where ts: "xs = ts @ [m]" "\<forall>k \<in> set ts. k < m"
      using Cons.IH by blast
    have "x # xs = (x # ts) @ [m]" using ts(1) by simp
    moreover have "\<forall>k \<in> set (x # ts). k < m" using ts(2) \<open>x < m\<close> by simp
    ultimately show ?thesis by blast
  qed
qed

lemma month_of_dated: "OrderDate r = Some d \<Longrightarrow> month_of v r = Some (month_str d)"
  by (simp add: month_of_def period_str_def)

lemma month_of_NaT_text: "month_of NaT_text r = Some ''NaT'' \<longleftrightarrow> OrderDate r = None"
  by (cases "OrderDate r") (simp_all add: month_of_def period_str_def month_str_neq_NaT)

lemma month_of_NaT_missing: "month_of NaT_missing r = None \<longleftrightarrow> OrderDate r = None"
  by (cases "OrderDate r") (simp_all add: month_of_def period_str_def)

lemma month_of_NaT_missing_Some:
  "month_of NaT_missing r = Some k \<longleftrightarrow> (\<exists>d. OrderDate r = Some d \<and> month_str d = k)"
  by (cases "OrderDate r") (auto simp: month_of_def period_str_def)

lemma month_of_NaT_text_le: "month_of NaT_text r = Some k \<Longrightarrow> k \<le> ''NaT''"
  by (cases "OrderDate r")
     (auto simp: month_of_def period_str_def less_imp_le [OF month_str_less_NaT])

lemma order_fields:
  "month_of v (order oid d c s p) = period_str v d"
  "Sales (order oid d c s p) = Some s"
  "Profit (order oid d c s p) = Some p"
  "OrderDate (order oid d c s p) = d"
  "CustomerName (order oid d c s p) = Some c"
  by (simp_all add: month_of_def order_def)

lemma month_str_examples:
  "month_str \<lparr> year = 2020, month = 1, day = 15 \<rparr> = ''2020-01''"
  "month_str \<lparr> year = 2020, month = 1, day = 28 \<rparr> = ''2020-01''"
  "month_str \<lparr> year = 2019, month = 12, day = 31 \<rparr> = ''2019-12''"
  by code_simp+

lemma period_str_examples:
  "period_str v (Some \<lparr> year = 2020, month = 1, day = 15 \<rparr>) = Some ''2020-01''"
  "period_str v (Some \<lparr> year = 2020, month = 1, day = 28 \<rparr>) = Some ''2020-01''"
  "period_str v (Some \<lparr> year = 2019, month = 12, day = 31 \<rparr>) = Some ''2019-12''"
  "period_str NaT_text None = Some ''NaT''"
  "period_str NaT_missing None = None"
  by (simp_all add: period_str_def month_str_examples del: One_nat_def)

text \<open>
  C5. The monthly trend of a subset has one entry for each Month bucket of its records, in
  strictly ascending order of the bucket, with the sum of Sales and the sum of Profit of
  the records of that bucket. The bucket of a dated record is the text of its year and
  month: two dates of the same year and month have the same bucket whatever their days, and
  for dates with a four-digit year and a month from 1 to 12 the buckets are equal exactly
  when year and month are equal and are ordered as year and month are, so the ascending
  order of the buckets is the chronological order. 2020-01-15 and 2020-01-28 both fall in
  the bucket 2020-01, and the Sales 100 and 50 of two such records are added up to 150.
  All of this holds for both versions of \<^verbatim>\<open>astype(str)\<close>.
\<close>

theorem monthly_trend:
  "(\<exists>ks. monthly (assign_month v (new_frame rs)) =
            Inr (map (\<lambda>k. (k, sum_skipna (map Sales (filter (\<lambda>r. month_of v r = Some k) rs)),
                              sum_skipna (map Profit (filter (\<lambda>r. month_of v r = Some k) rs)))) ks)
      \<and> sorted_wrt (<) ks \<and> set ks = {k. Some k \<in> month_of v ` set rs})
   \<and> (\<forall>r d. OrderDate r = Some d \<longrightarrow> month_of v r = Some (month_str d))
   \<and> (\<forall>d d'. year d = year d' \<and> month d = month d' \<longrightarrow> month_str d = month_str d')
   \<and> (\<forall>d d'. valid_date d \<and> valid_date d' \<longrightarrow>
         (month_str d = month_str d' \<longleftrightarrow> year d = year d' \<and> month d = month d')
       \<and> (month_str d < month_str d' \<longleftrightarrow>
            year d < year d' \<or> (year d = year d' \<and> month d < month d')))
   \<and> month_str \<lparr> year = 2020, month = 1, day = 15 \<rparr> = ''2020-01''
   \<and> month_str \<lparr> year = 2020, month = 1, day = 28 \<rparr> = ''2020-01''
   \<and> monthly (assign_month v (new_frame
        [order ''O1'' (Some \<lparr> year = 2020, month = 1, day = 15 \<rparr>) ''A'' 100 30,
         order ''O2'' (Some \<lparr> year = 2020, month = 1, day = 28 \<rparr>) ''B'' 50 (- 5)]))
       = Inr [(''2020-01'', 150, 25)]"
proof (intro conjI)
  let ?ks = "group_keys (month_of v) rs"
  have "monthly (assign_month v (new_frame rs)) =
            Inr (map (\<lambda>k. (k, sum_skipna (map Sales (filter (\<lambda>r. month_of v r = Some k) rs)),
                              sum_skipna (map Profit (filter (\<lambda>r. month_of v r = Some k) rs)))) ?ks)"
    by (rule monthly_assign_month)
  moreover have "sorted_wrt (<) ?ks" by (rule strict_sorted_group_keys)
  moreover have "set ?ks = {k. Some k \<in> month_of v ` set rs}" by (rule set_group_keys_image)
  ultimately show "\<exists>ks. monthly (assign_month v (new_frame rs)) =
            Inr (map (\<lambda>k. (k, sum_skipna (map Sales (filter (\<lambda>r. month_of v r = Some k) rs)),
                              sum_skipna (map Profit (filter (\<lambda>r. month_of v r = Some k) rs)))) ks)
      \<and> sorted_wrt (<) ks \<and> set ks = {k. Some k \<in> month_of v ` set rs}"
    by blast
next
  show "\<forall>r d. OrderDate r = Some d \<longrightarrow> month_of v r = Some (month_str d)"
    by (simp add: month_of_dated)
next
  show "\<forall>d d'. year d = year d' \<and> month d = month d' \<longrightarrow> month_str d = month_str d'"
    by (simp add: month_str_def)
next
  show "\<forall>d d'. valid_date d \<and> valid_date d' \<longrightarrow>
         (month_str d = month_str d' \<longleftrightarrow> year d = year d' \<and> month d = month d')
       \<and> (month_str d < month_str d' \<longleftrightarrow>
            year d < year d' \<or> (year d = year d' \<and> month d < month d'))"
    using month_str_eq month_str_less by blast
next
  show "month_str \<lparr> year = 2020, month = 1, day = 15 \<rparr> = ''2020-01''"
    by (rule month_str_examples)
next
  show "month_str \<lparr> year = 2020, month = 1, day = 28 \<rparr> = ''2020-01''"
    by (rule month_str_examples)
next
  show "monthly (assign_month v (new_frame
        [order ''O1'' (Some \<lparr> year = 2020, month = 1, day = 15 \<rparr>) ''A'' 100 30,
         order ''O2'' (Some \<lparr> year = 2020, month = 1, day = 28 \<rparr>) ''B'' 50 (- 5)]))
       = Inr [(''2020-01'', 150, 25)]"
    unfolding monthly_assign_month
    by (simp add: order_fields period_str_examples group_keys_def sum_skipna_def
        List.map_filter_simps del: One_nat_def)
qed

text \<open>
  Three records dated 2020-01-15, 2019-12-31 and 2020-01-28: both dates are valid, December
  2019 is ordered before January 2020, and the trend lists 2019-12 before 2020-01.
\<close>

theorem monthly_trend_witness:
  "valid_date \<lparr> year = 2019, month = 12, day = 31 \<rparr>
   \<and> valid_date \<lparr> year = 2020, month = 1, day = 15 \<rparr>
   \<and> month_str \<lparr> year = 2019, month = 12, day = 31 \<rparr>
       < month_str \<lparr> year = 2020, month = 1, day = 15 \<rparr>
   \<and> monthly (assign_month NaT_text (new_frame
        [order ''O1'' (Some \<lparr> year = 2020, month = 1, day = 15 \<rparr>) ''A'' 100 30,
         order ''O2'' (Some \<lparr> year = 2019, month = 12, day = 31 \<rparr>) ''B'' 30 (- 5),
         order ''O3'' (Some \<lparr> year = 2020, month = 1, day = 28 \<rparr>) ''A'' 50 30]))
       = Inr [(''2019-12'', 30, - 5), (''2020-01'', 150, 60)]
   \<and> monthly (assign_month NaT_missing (new_frame
        [order ''O1'' (Some \<lparr> year = 2020, month = 1, day = 15 \<rparr>) ''A'' 100 30,
         order ''O2'' (Some \<lparr> year = 2019, month = 12, day = 31 \<rparr>) ''B'' 30 (- 5),
         order ''O3'' (Some \<lparr> year = 2020, month = 1, day = 28 \<rparr>) ''A'' 50 30]))
       = Inr [(''2019-12'', 30, - 5), (''2020-01'', 150, 60)]"
proof -
  let ?d = "\<lparr> year = 2019, month = 12, day = 31 \<rparr>"
  let ?d' = "\<lparr> year = 2020, month = 1, day = 15 \<rparr>"
  have v: "valid_date ?d \<and> valid_date ?d'"
    by (simp add: valid_date_def)
  have "\<forall>d d'. valid_date d \<and> valid_date d' \<longrightarrow>
         (month_str d = month_str d' \<longleftrightarrow> year d = year d' \<and> month d = month d')
       \<and> (month_str d < month_str d' \<longleftrightarrow>
            year d < year d' \<or> (year d = year d' \<and> month d < month d'))"
    using monthly_trend [of NaT_text "[]"] by (elim conjE)
  with v have "month_str ?d < month_str ?d' \<longleftrightarrow>
      year ?d < year ?d' \<or> (year ?d = year ?d' \<and> month ?d < month ?d')"
    by blast
  then have lt: "month_str ?d < month_str ?d'" by simp
  have "monthly (assign_month v (new_frame
        [order ''O1'' (Some \<lparr> year = 2020, month = 1, day = 15 \<rparr>) ''A'' 100 30,
         order ''O2'' (Some \<lparr> year = 2019, month = 12, day = 31 \<rparr>) ''B'' 30 (- 5),
         order ''O3'' (Some \<lparr> year = 2020, month = 1, day = 28 \<rparr>) ''A'' 50 30]))
       = Inr [(''2019-12'', 30, - 5), (''2020-01'', 150, 60)]" for v
    unfolding monthly_assign_month
    by (simp add: order_fields period_str_examples group_keys_def sum_skipna_def
        List.map_filter_simps del: One_nat_def)
  with v lt show ?thesis by blast
qed


subsection \<open>Records without an order date\<close>

lemma load_data_keeps:
  assumes "r \<in> set raw" "notna_subset (coerce to_datetime to_numeric r)"
  shows "coerce to_datetime to_numeric r \<in> set (load_data to_datetime to_numeric raw)"
  using assms by (simp add: load_data_def dropna_def)

lemma coerce_fields:
  "OrderDate (coerce td tn r) = coerce_cell td (OrderDate r)"
  "Sales (coerce td tn r) = coerce_cell tn (Sales r)"
  "Profit (coerce td tn r) = coerce_cell tn (Profit r)"
  "Region (coerce td tn r) = Region r"
  "Segment (coerce td tn r) = Segment r"
  "Category (coerce td tn r) = Category r"
  "SubCategory (coerce td tn r) = SubCategory r"
  "CustomerName (coerce td tn r) = CustomerName r"
  by (simp_all add: coerce_def)

lemma monthly_NaT_last:
  assumes "r0 \<in> set rs" "OrderDate r0 = None"
  shows "\<exists>ts. monthly (assign_month NaT_text (new_frame rs)) =
            Inr (ts @ [(''NaT'', sum_skipna (map Sales (filter (\<lambda>r. OrderDate r = None) rs)),
                               sum_skipna (map Profit (filter (\<lambda>r. OrderDate r = None) rs)))])
          \<and> (\<forall>t \<in> set ts. fst t < ''NaT'')"
proof -
  let ?ks = "group_keys (month_of NaT_text) rs"
  let ?F = "\<lambda>k. (k, sum_skipna (map Sales (filter (\<lambda>r. month_of NaT_text r = Some k) rs)),
                     sum_skipna (map Profit (filter (\<lambda>r. month_of NaT_text r = Some k) rs)))"
  have "month_of NaT_text r0 = Some ''NaT''" using assms(2) by (simp add: month_of_NaT_text)
  then have in_ks: "''NaT'' \<in> set ?ks"
    using assms(1) unfolding set_group_keys by blast
  have le: "k \<le> ''NaT''" if "k \<in> set ?ks" for k
  proof -
    from that obtain r where "month_of NaT_text r = Some k"
      unfolding set_group_keys by blast
    then show ?thesis by (rule month_of_NaT_text_le)
  qed
  obtain ks' where ks': "?ks = ks' @ [''NaT'']" "\<forall>k \<in> set ks'. k < ''NaT''"
    using sorted_max_last [OF strict_sorted_group_keys in_ks le] by blast
  have F: "?F ''NaT'' = (''NaT'', sum_skipna (map Sales (filter (\<lambda>r. OrderDate r = None) rs)),
                               sum_skipna (map Profit (filter (\<lambda>r. OrderDate r = None) rs)))"
    by (simp only: month_of_NaT_text)
  have "monthly (assign_month NaT_text (new_frame rs)) = Inr (map ?F ?ks)"
    by (rule monthly_assign_month)
  also have "map ?F ?ks = map ?F ks' @ [?F ''NaT'']"
    unfolding ks'(1) by simp
  finally have "monthly (assign_month NaT_text (new_frame rs)) =
      Inr (map ?F ks' @ [(''NaT'', sum_skipna (map Sales (filter (\<lambda>r. OrderDate r = None) rs)),
                               sum_skipna (map Profit (filter (\<lambda>r. OrderDate r = None) rs)))])"
    unfolding F .
  moreover have "\<forall>t \<in> set (map ?F ks'). fst t < ''NaT''"
    using ks'(2) by simp
  ultimately show ?thesis by blast
qed

lemma monthly_NaT_missing:
  "\<exists>ks. monthly (assign_month NaT_missing (new_frame rs)) =
       Inr (map (\<lambda>k. (k, sum_skipna (map Sales
                            (filter (\<lambda>r. \<exists>d. OrderDate r = Some d \<and> month_str d = k) rs)),
                          sum_skipna (map Profit
                            (filter (\<lambda>r. \<exists>d. OrderDate r = Some d \<and> month_str d = k) rs)))) ks)
     \<and> sorted_wrt (<) ks
     \<and> set ks = {month_str d | d. Some d \<in> OrderDate ` set rs}"
proof -
  let ?ks = "group_keys (month_of NaT_missing) rs"
  have "monthly (assign_month NaT_missing (new_frame rs)) =
       Inr (map (\<lambda>k. (k, sum_skipna (map Sales
                            (filter (\<lambda>r. \<exists>d. OrderDate r = Some d \<and> month_str d = k) rs)),
                          sum_skipna (map Profit
                            (filter (\<lambda>r. \<exists>d. OrderDate r = Some d \<and> month_str d = k) rs)))) ?ks)"
    unfolding monthly_assign_month month_of_NaT_missing_Some by (rule refl)
  moreover have "sorted_wrt (<) ?ks" by (rule strict_sorted_group_keys)
  moreover have "set ?ks = {month_str d | d. Some d \<in> OrderDate ` set rs}"
  proof -
    have "set ?ks = {k. \<exists>r \<in> set rs. \<exists>d. OrderDate r = Some d \<and> month_str d = k}"
      unfolding set_group_keys month_of_NaT_missing_Some by (rule refl)
    also have "\<dots> = {month_str d | d. Some d \<in> OrderDate ` set rs}"
      by force
    finally show ?thesis .
  qed
  ultimately show ?thesis by blast
qed

lemma map_filter_filter:
  assumes "\<And>r. \<not> P r \<Longrightarrow> g r = None"
  shows "List.map_filter g (filter P rs) = List.map_filter g rs"
  using assms by (induction rs) (auto simp: List.map_filter_simps split: option.splits)

lemma monthly_NaT_missing_dated:
  "monthly (assign_month NaT_missing (new_frame rs))
   = monthly (assign_month NaT_missing (new_frame (filter (\<lambda>r. OrderDate r \<noteq> None) rs)))"
proof -
  let ?g = "month_of NaT_missing"
  let ?P = "\<lambda>r. OrderDate r \<noteq> None"
  have "List.map_filter ?g (filter ?P rs) = List.map_filter ?g rs"
    by (rule map_filter_filter) (simp add: month_of_NaT_missing)
  then have keys: "group_keys ?g (filter ?P rs) = group_keys ?g rs"
    by (simp add: group_keys_def)
  have "(?P r \<and> ?g r = Some k) = (?g r = Some k)" for r k
    by (auto simp: month_of_NaT_missing_Some)
  then have grp: "filter (\<lambda>r. ?g r = Some k) (filter ?P rs) = filter (\<lambda>r. ?g r = Some k) rs" for k
    by (simp add: conj_commute)
  show ?thesis
    unfolding monthly_assign_month keys grp by (rule refl)
qed

text \<open>
  C10, for both versions of \<^verbatim>\<open>astype(str)\<close>. A raw record whose OrderDate does not
  parse (or is missing), while its Sales and Profit parse and its Region, Segment,
  Category, SubCategory and CustomerName are present, is kept by \<open>load_data\<close>, with NaT
  as its OrderDate. Where \<^verbatim>\<open>astype(str)\<close> writes NaT as a text (pandas before 3.0), the
  monthly trend of a subset with at least one record without a date has the records
  without a date, and only them, in one bucket, named NaT, with the sums of their Sales
  and Profit; it is the last entry and every other bucket is smaller than it. Where
  \<^verbatim>\<open>astype(str)\<close> leaves NaT missing (pandas 3), the records without a date are in no
  bucket: the trend is the trend of the dated records, one bucket for each year and month
  among their dates. The bucket of every date is smaller than the text NaT.
\<close>

theorem unparsed_order_date_bucket:
  "(r \<in> set raw \<and> coerce_cell to_datetime (OrderDate r) = None
      \<and> coerce_cell to_numeric (Sales r) \<noteq> None \<and> coerce_cell to_numeric (Profit r) \<noteq> None
      \<and> Region r \<noteq> None \<and> Segment r \<noteq> None \<and> Category r \<noteq> None \<and> SubCategory r \<noteq> None
      \<and> CustomerName r \<noteq> None
    \<longrightarrow> coerce to_datetime to_numeric r \<in> set (load_data to_datetime to_numeric raw)
        \<and> OrderDate (coerce to_datetime to_numeric r) = None)
   \<and> ((\<exists>r \<in> set rs. OrderDate r = None) \<longrightarrow>
        (\<exists>ts. monthly (assign_month NaT_text (new_frame rs)) =
            Inr (ts @ [(''NaT'', sum_skipna (map Sales (filter (\<lambda>r. OrderDate r = None) rs)),
                               sum_skipna (map Profit (filter (\<lambda>r. OrderDate r = None) rs)))])
          \<and> (\<forall>t \<in> set ts. fst t < ''NaT'')))
   \<and> monthly (assign_month NaT_missing (new_frame rs))
       = monthly (assign_month NaT_missing (new_frame (filter (\<lambda>r. OrderDate r \<noteq> None) rs)))
   \<and> (\<exists>ks. monthly (assign_month NaT_missing (new_frame rs)) =
         Inr (map (\<lambda>k. (k, sum_skipna (map Sales
                              (filter (\<lambda>r. \<exists>d. OrderDate r = Some d \<and> month_str d = k) rs)),
                            sum_skipna (map Profit
                              (filter (\<lambda>r. \<exists>d. OrderDate r = Some d \<and> month_str d = k) rs)))) ks)
       \<and> sorted_wrt (<) ks
       \<and> set ks = {month_str d | d. Some d \<in> OrderDate ` set rs})
   \<and> (\<forall>r. month_of NaT_text r = Some ''NaT'' \<longleftrightarrow> OrderDate r = None)
   \<and> (\<forall>r. month_of NaT_missing r = None \<longleftrightarrow> OrderDate r = None)
   \<and> (\<forall>d. month_str d < ''NaT'')"
proof (intro conjI impI allI)
  assume a: "r \<in> set raw \<and> coerce_cell to_datetime (OrderDate r) = None
      \<and> coerce_cell to_numeric (Sales r) \<noteq> None \<and> coerce_cell to_numeric (Profit r) \<noteq> None
      \<and> Region r \<noteq> None \<and> Segment r \<noteq> None \<and> Category r \<noteq> None \<and> SubCategory r \<noteq> None
      \<and> CustomerName r \<noteq> None"
  then have "notna_subset (coerce to_datetime to_numeric r)"
    by (simp add: notna_subset_def coerce_fields)
  with a show "coerce to_datetime to_numeric r \<in> set (load_data to_datetime to_numeric raw)"
    by (simp only: load_data_keeps)
  from a show "OrderDate (coerce to_datetime to_numeric r) = None"
    by (simp add: coerce_fields)
next
  assume "\<exists>r \<in> set rs. OrderDate r = None"
  then obtain r0 where "r0 \<in> set rs" "OrderDate r0 = None" by blast
  then show "\<exists>ts. monthly (assign_month NaT_text (new_frame rs)) =
            Inr (ts @ [(''NaT'', sum_skipna (map Sales (filter (\<lambda>r. OrderDate r = None) rs)),
                               sum_skipna (map Profit (filter (\<lambda>r. OrderDate r = None) rs)))])
          \<and> (\<forall>t \<in> set ts. fst t < ''NaT'')"
    by (rule monthly_NaT_last)
next
  show "monthly (assign_month NaT_missing (new_frame rs))
       = monthly (assign_month NaT_missing (new_frame (filter (\<lambda>r. OrderDate r \<noteq> None) rs)))"
    by (rule monthly_NaT_missing_dated)
next
  show "\<exists>ks. monthly (assign_month NaT_missing (new_frame rs)) =
         Inr (map (\<lambda>k. (k, sum_skipna (map Sales
                              (filter (\<lambda>r. \<exists>d. OrderDate r = Some d \<and> month_str d = k) rs)),
                            sum_skipna (map Profit
                              (filter (\<lambda>r. \<exists>d. OrderDate r = Some d \<and> month_str d = k) rs)))) ks)
       \<and> sorted_wrt (<) ks
       \<and> set ks = {month_str d | d. Some d \<in> OrderDate ` set rs}"
    by (rule monthly_NaT_missing)
next
  fix r :: row show "month_of NaT_text r = Some ''NaT'' \<longleftrightarrow> OrderDate r = None"
    by (rule month_of_NaT_text)
next
  fix r :: row show "month_of NaT_missing r = None \<longleftrightarrow> OrderDate r = None"
    by (rule month_of_NaT_missing)
next
  fix d show "month_str d < ''NaT''" by (rule month_str_less_NaT)
qed

text \<open>
  The claim as the specification words it fails where \<^verbatim>\<open>astype(str)\<close> leaves NaT
  missing. The raw record O2 has the OrderDate text \<open>soon\<close>, which is no date: the loader
  keeps it, without a date, but the monthly trend of the loaded table has the bucket
  2020-01 of the dated record only, and no bucket for O2.
\<close>

theorem unparsed_order_date_bucket_counterexample:
  "load_data example_to_datetime example_to_numeric
     [raw_order ''O1'' ''2020-01-15'' ''A'' ''100'' ''30'',
      raw_order ''O2'' ''soon'' ''B'' ''50'' ''-5'']
     = [order ''O1'' (Some \<lparr> year = 2020, month = 1, day = 15 \<rparr>) ''A'' 100 30,
        order ''O2'' None ''B'' 50 (- 5)]
   \<and> monthly (assign_month NaT_missing (new_frame
        (load_data example_to_datetime example_to_numeric
          [raw_order ''O1'' ''2020-01-15'' ''A'' ''100'' ''30'',
           raw_order ''O2'' ''soon'' ''B'' ''50'' ''-5''])))
       = Inr [(''2020-01'', 100, 30)]"
proof -
  have 1: "load_data example_to_datetime example_to_numeric
     [raw_order ''O1'' ''2020-01-15'' ''A'' ''100'' ''30'',
      raw_order ''O2'' ''soon'' ''B'' ''50'' ''-5'']
     = [order ''O1'' (Some \<lparr> year = 2020, month = 1, day = 15 \<rparr>) ''A'' 100 30,
        order ''O2'' None ''B'' 50 (- 5)]"
    by (simp add: load_data_def dropna_def coerce_def coerce_cell_def notna_subset_def
        raw_order_def order_def example_to_datetime_def example_to_numeric_def)
  have 2: "monthly (assign_month NaT_missing (new_frame
        [order ''O1'' (Some \<lparr> year = 2020, month = 1, day = 15 \<rparr>) ''A'' 100 30,
         order ''O2'' None ''B'' 50 (- 5)]))
       = Inr [(''2020-01'', 100, 30)]"
    unfolding monthly_assign_month
    by (simp add: order_fields period_str_examples group_keys_def sum_skipna_def
        List.map_filter_simps del: One_nat_def)
  from 1 2 show ?thesis by simp
qed

text \<open>
  The same raw record O2 is kept by the loader without a date. A subset with one dated and
  two undated records has, where NaT is written as a text, the trend 2020-01, then NaT
  with the sums 80 and 25 of the two undated records; where NaT stays missing its trend
  is the bucket 2020-01 alone.
\<close>

theorem unparsed_order_date_bucket_witness:
  "coerce example_to_datetime example_to_numeric (raw_order ''O2'' ''soon'' ''B'' ''50'' ''-5'')
     \<in> set (load_data example_to_datetime example_to_numeric
          [raw_order ''O1'' ''2020-01-15'' ''A'' ''100'' ''30'',
           raw_order ''O2'' ''soon'' ''B'' ''50'' ''-5''])
   \<and> coerce example_to_datetime example_to_numeric (raw_order ''O2'' ''soon'' ''B'' ''50'' ''-5'')
       = order ''O2'' None ''B'' 50 (- 5)
   \<and> monthly (assign_month NaT_text (new_frame
        [order ''O1'' (Some \<lparr> year = 2020, month = 1, day = 15 \<rparr>) ''A'' 100 30,
         order ''O2'' None ''B'' 50 (- 5), order ''O3'' None ''A'' 30 30]))
       = Inr ([(''2020-01'', 100, 30)] @ [(''NaT'', 80, 25)])
   \<and> ''2020-01'' < ''NaT''
   \<and> monthly (assign_month NaT_missing (new_frame
        [order ''O1'' (Some \<lparr> year = 2020, month = 1, day = 15 \<rparr>) ''A'' 100 30,
         order ''O2'' None ''B'' 50 (- 5), order ''O3'' None ''A'' 30 30]))
       = Inr [(''2020-01'', 100, 30)]"
proof -
  let ?r = "raw_order ''O2'' ''soon'' ''B'' ''50'' ''-5''"
  let ?raw = "[raw_order ''O1'' ''2020-01-15'' ''A'' ''100'' ''30'', ?r]"
  let ?rs = "[order ''O1'' (Some \<lparr> year = 2020, month = 1, day = 15 \<rparr>) ''A'' 100 30,
         order ''O2'' None ''B'' 50 (- 5), order ''O3'' None ''A'' 30 30]"
  note inst = unparsed_order_date_bucket [of ?r ?raw example_to_datetime example_to_numeric ?rs]
  have h1: "?r \<in> set ?raw \<and> coerce_cell example_to_datetime (OrderDate ?r) = None
      \<and> coerce_cell example_to_numeric (Sales ?r) \<noteq> None
      \<and> coerce_cell example_to_numeric (Profit ?r) \<noteq> None
      \<and> Region ?r \<noteq> None \<and> Segment ?r \<noteq> None \<and> Category ?r \<noteq> None \<and> SubCategory ?r \<noteq> None
      \<and> CustomerName ?r \<noteq> None"
    by (simp add: raw_order_def coerce_cell_def example_to_datetime_def example_to_numeric_def)
  have h2: "\<exists>r \<in> set ?rs. OrderDate r = None"
    by (simp add: order_fields)
  from inst h1 have 1: "coerce example_to_datetime example_to_numeric ?r
      \<in> set (load_data example_to_datetime example_to_numeric ?raw)"
    by blast
  from inst h2 obtain ts where ts: "monthly (assign_month NaT_text (new_frame ?rs)) =
      Inr (ts @ [(''NaT'', sum_skipna (map Sales (filter (\<lambda>r. OrderDate r = None) ?rs)),
                         sum_skipna (map Profit (filter (\<lambda>r. OrderDate r = None) ?rs)))])"
    by blast
  have 2: "coerce example_to_datetime example_to_numeric ?r = order ''O2'' None ''B'' 50 (- 5)"
    by (simp add: coerce_def coerce_cell_def raw_order_def order_def example_to_datetime_def
        example_to_numeric_def)
  have 3: "monthly (assign_month NaT_text (new_frame ?rs))
      = Inr ([(''2020-01'', 100, 30)] @ [(''NaT'', 80, 25)])"
    unfolding monthly_assign_month
    by (simp add: order_fields period_str_examples group_keys_def sum_skipna_def
        List.map_filter_simps del: One_nat_def)
  have 4: "''2020-01'' < ''NaT''" by simp
  have 5: "monthly (assign_month NaT_missing (new_frame ?rs)) = Inr [(''2020-01'', 100, 30)]"
    unfolding monthly_assign_month
    by (simp add: order_fields period_str_examples group_keys_def sum_skipna_def
        List.map_filter_simps del: One_nat_def)
  from 1 2 3 4 5 show ?thesis by blast
qed


subsection \<open>Export and re-import\<close>

lemma decode_latin1_id: "decode_latin1 bytes = bytes"
  by (simp add: decode_latin1_def)

lemma length_utf8_char:
  "length (utf8_char c) = (if (of_char c :: nat) < 128 then 1 else 2)"
  by (simp add: utf8_char_def)

lemma length_encode_utf8:
  "length (encode_utf8 s) = length s + length (filter (\<lambda>c. \<not> (of_char c :: nat) < 128) s)"
  by (induction s) (simp_all add: encode_utf8_def length_utf8_char)

lemma encode_utf8_ascii:
  "(\<And>c. c \<in> set s \<Longrightarrow> (of_char c :: nat) < 128) \<Longrightarrow> encode_utf8 s = s"
  by (induction s) (simp_all add: encode_utf8_def utf8_char_def)

lemma encode_utf8_eq_iff:
  "encode_utf8 s = s \<longleftrightarrow> (\<forall>c \<in> set s. (of_char c :: nat) < 128)"
proof
  assume "encode_utf8 s = s"
  then have "length (encode_utf8 s) = length s" by simp
  then have "filter (\<lambda>c. \<not> (of_char c :: nat) < 128) s = []"
    by (simp add: length_encode_utf8)
  then show "\<forall>c \<in> set s. (of_char c :: nat) < 128"
    by (simp add: filter_empty_conv)
next
  assume "\<forall>c \<in> set s. (of_char c :: nat) < 128"
  then show "encode_utf8 s = s" by (simp add: encode_utf8_ascii)
qed

lemma dropna_apply_filters:
  "dropna (apply_filters (load_data td tn raw) R C S) = apply_filters (load_data td tn raw) R C S"
proof -
  have "\<And>r. r \<in> set (apply_filters (load_data td tn raw) R C S) \<Longrightarrow> notna_subset r"
    by (simp add: apply_filters_filter) (erule conjE, erule notna_load_data)
  then show ?thesis
    unfolding dropna_def by (simp add: filter_id_conv)
qed

text \<open>
  The tokenizer reads the lines that \<open>csv_line\<close> writes back as the records they were
  written from.
\<close>

lemma foldl_tok_in_field:
  "\<not> list_ex needs_quotes s \<Longrightarrow>
   foldl tok_step (IN_FIELD, cur, flds, done) s = (IN_FIELD, rev s @ cur, flds, done)"
  by (induction s arbitrary: cur) (simp_all add: needs_quotes_def)

lemma foldl_tok_quoted:
  "foldl tok_step (IN_QUOTED_FIELD, cur, flds, done)
     (concat (map (\<lambda>c. if c = CHR 0x22 then [c, c] else [c]) s))
   = (IN_QUOTED_FIELD, rev s @ cur, flds, done)"
  by (induction s arbitrary: cur) simp_all

lemma foldl_tok_field:
  "foldl tok_step (START_FIELD, [], flds, done) (quote_minimal s) =
     (if list_ex needs_quotes s then (QUOTE_IN_QUOTED_FIELD, rev s, flds, done)
      else if s = [] then (START_FIELD, [], flds, done)
      else (IN_FIELD, rev s, flds, done))"
proof (cases "list_ex needs_quotes s")
  case True
  then show ?thesis
    by (simp add: quote_minimal_def tok_start_field_def foldl_tok_quoted)
next
  case False
  show ?thesis
  proof (cases s)
    case Nil
    then show ?thesis by (simp add: quote_minimal_def)
  next
    case (Cons c cs)
    with False have c: "\<not> needs_quotes c" and cs: "\<not> list_ex needs_quotes cs" by simp_all
    from c have "tok_start_field c flds done = (IN_FIELD, [c], flds, done)"
      by (simp add: tok_start_field_def needs_quotes_def)
    with False Cons cs show ?thesis
      by (simp add: quote_minimal_def foldl_tok_in_field)
  qed
qed

lemma tok_field_comma:
  "foldl tok_step (START_FIELD, [], flds, done) (quote_minimal s @ '','')
   = (START_FIELD, [], s # flds, done)"
  by (simp add: foldl_tok_field tok_start_field_def)

lemma tok_field_newline:
  "foldl tok_step (START_FIELD, [], flds, done) (quote_minimal s @ [CHR 0x0A])
   = (START_RECORD, [], [], rev (s # flds) # done)"
  by (simp add: foldl_tok_field tok_start_field_def end_line_def)


lemma tok_fields:
  "fs \<noteq> [] \<Longrightarrow>
   foldl tok_step (START_FIELD, [], flds, done) (join '','' (map quote_minimal fs) @ [CHR 0x0A])
   = (START_RECORD, [], [], (rev flds @ fs) # done)"
proof (induction fs arbitrary: flds)
  case Nil
  then show ?case by simp
next
  case (Cons f fs)
  show ?case
  proof (cases fs)
    case Nil
    then show ?thesis using tok_field_newline [of flds "done" f] by simp
  next
    case (Cons g gs)
    have split: "join '','' (map quote_minimal (f # fs)) @ [CHR 0x0A]
        = (quote_minimal f @ '','') @ (join '','' (map quote_minimal fs) @ [CHR 0x0A])"
      using Cons by simp
    have "foldl tok_step (START_FIELD, [], flds, done)
          (join '','' (map quote_minimal (f # fs)) @ [CHR 0x0A])
        = foldl tok_step (START_FIELD, [], f # flds, done)
          (join '','' (map quote_minimal fs) @ [CHR 0x0A])"
      unfolding split by (subst foldl_append) (simp only: tok_field_comma)
    also have "\<dots> = (START_RECORD, [], [], (rev (f # flds) @ fs) # done)"
      by (rule Cons.IH) (simp add: Cons)
    finally show ?thesis by simp
  qed
qed

lemma quote_minimal_comma_hd:
  "\<exists>x xs. quote_minimal s @ '','' = x # xs \<and> x \<noteq> CHR 0x0A \<and> x \<noteq> CHR 0x0D"
proof (cases "list_ex needs_quotes s")
  case True
  then show ?thesis by (simp add: quote_minimal_def)
next
  case False
  then show ?thesis
    by (cases s) (auto simp: quote_minimal_def needs_quotes_def)
qed

lemma tok_start_record_as_field:
  "x \<noteq> CHR 0x0A \<Longrightarrow> x \<noteq> CHR 0x0D \<Longrightarrow>
   tok_step (START_RECORD, cur, flds, done) x = tok_step (START_FIELD, [], [], done) x"
  by (simp add: tok_start_record_def)

lemma tok_first_field:
  "foldl tok_step (START_RECORD, cur, flds, done) (quote_minimal s @ '','')
   = (START_FIELD, [], [s], done)"
proof -
  obtain x xs where x: "quote_minimal s @ '','' = x # xs" "x \<noteq> CHR 0x0A" "x \<noteq> CHR 0x0D"
    using quote_minimal_comma_hd by blast
  have "foldl tok_step (START_RECORD, cur, flds, done) (x # xs)
      = foldl tok_step (START_FIELD, [], [], done) (x # xs)"
    using x(2,3) by (simp add: tok_start_record_def)
  then show ?thesis
    unfolding x(1) [symmetric] by (simp only: tok_field_comma)
qed

lemma tok_record:
  "foldl tok_step (START_RECORD, cur, flds, done) (csv_line (f # g # fs))
   = (START_RECORD, [], [], (f # g # fs) # done)"
proof -
  have split: "csv_line (f # g # fs)
      = (quote_minimal f @ '','') @ (join '','' (map quote_minimal (g # fs)) @ [CHR 0x0A])"
    by (simp add: csv_line_def)
  have "foldl tok_step (START_RECORD, cur, flds, done) (csv_line (f # g # fs))
      = foldl tok_step (START_FIELD, [], [f], done)
          (join '','' (map quote_minimal (g # fs)) @ [CHR 0x0A])"
    unfolding split by (subst foldl_append) (simp only: tok_first_field)
  also have "\<dots> = (START_RECORD, [], [], (rev [f] @ (g # fs)) # done)"
    by (rule tok_fields) simp
  finally show ?thesis by simp
qed

lemma tok_table:
  "(\<And>r. r \<in> set recs \<Longrightarrow> 2 \<le> length r) \<Longrightarrow>
   foldl tok_step (START_RECORD, [], [], acc) (concat (map csv_line recs))
   = (START_RECORD, [], [], rev recs @ acc)"
proof (induction recs arbitrary: acc)
  case Nil
  then show ?case by simp
next
  case (Cons r recs)
  have "2 \<le> length r" using Cons.prems by simp
  then obtain f g fs where r: "r = f # g # fs"
    by (auto simp: Suc_le_length_iff numeral_2_eq_2)
  have "foldl tok_step (START_RECORD, [], [], acc) (concat (map csv_line (r # recs)))
      = foldl tok_step (START_RECORD, [], [], r # acc) (concat (map csv_line recs))"
    by (simp add: r tok_record)
  also have "\<dots> = (START_RECORD, [], [], rev recs @ r # acc)"
    by (rule Cons.IH) (use Cons.prems in simp)
  finally show ?case by simp
qed

lemma tokenize_csv:
  "(\<And>r. r \<in> set recs \<Longrightarrow> 2 \<le> length r) \<Longrightarrow>
   tokenize (concat (map csv_line recs)) = Inr recs"
  by (simp add: tokenize_def tok_table)


lemma zip_map_month:
  "map (\<lambda>(r, m). row_fields w r @ [na_rep id m]) (zip rs (map g rs))
   = map (\<lambda>r. row_fields w r @ [na_rep id (g r)]) rs"
  by (induction rs) simp_all

lemma to_csv_assign_month:
  "to_csv w (assign_month v (new_frame rs))
   = concat (map csv_line ((column_names @ [''Month'']) #
       map (\<lambda>r. row_fields w r @ [na_rep id (month_of v r)]) rs))"
  by (simp add: to_csv_def assign_month_def new_frame_def zip_map_month)

lemma length_row_fields: "length (row_fields w r) = 10"
  by (simp add: row_fields_def)

lemma length_column_names: "length column_names = 10"
  by (simp add: column_names_def)

lemma read_csv_to_csv:
  "read_csv (to_csv w (assign_month v (new_frame rs)))
   = Inr (column_names @ [''Month''],
          map (\<lambda>r. map na_cell (row_fields w r @ [na_rep id (month_of v r)])) rs)"
proof -
  let ?H = "column_names @ [''Month'']"
  let ?data = "map (\<lambda>r. row_fields w r @ [na_rep id (month_of v r)]) rs"
  have "tokenize (concat (map csv_line (?H # ?data))) = Inr (?H # ?data)"
    by (rule tokenize_csv) (auto simp: length_column_names length_row_fields)
  moreover have "index_width ?H ?data = 0"
    by (cases rs) (simp_all add: index_width_def length_column_names length_row_fields)
  ultimately show ?thesis
    unfolding to_csv_assign_month read_csv_def
    by (simp add: list_ex_iff length_column_names length_row_fields o_def)
qed

lemma header_kept:
  "drop_column problematic_column (map clean_column (column_names @ [''Month'']), recs)
   = (column_names @ [''Month''], recs)"
  by (simp add: drop_column_def problematic_column_def column_names_def clean_column_def
      strip_def is_space_def)

lemma cell_at_fields:
  "cell_at ''OrderID'' (column_names @ [''Month'']) (map na_cell (row_fields w r @ [m]))
     = na_cell (na_rep id (OrderID r))"
  "cell_at ''OrderDate'' (column_names @ [''Month'']) (map na_cell (row_fields w r @ [m]))
     = na_cell (na_rep (order_date_repr w) (OrderDate r))"
  "cell_at ''ShipDate'' (column_names @ [''Month'']) (map na_cell (row_fields w r @ [m]))
     = na_cell (na_rep (ship_date_repr w) (ShipDate r))"
  "cell_at ''Sales'' (column_names @ [''Month'']) (map na_cell (row_fields w r @ [m]))
     = na_cell (na_rep (sales_repr w) (Sales r))"
  "cell_at ''Profit'' (column_names @ [''Month'']) (map na_cell (row_fields w r @ [m]))
     = na_cell (na_rep (profit_repr w) (Profit r))"
  "cell_at ''Region'' (column_names @ [''Month'']) (map na_cell (row_fields w r @ [m]))
     = na_cell (na_rep id (Region r))"
  "cell_at ''Segment'' (column_names @ [''Month'']) (map na_cell (row_fields w r @ [m]))
     = na_cell (na_rep id (Segment r))"
  "cell_at ''Category'' (column_names @ [''Month'']) (map na_cell (row_fields w r @ [m]))
     = na_cell (na_rep id (Category r))"
  "cell_at ''SubCategory'' (column_names @ [''Month'']) (map na_cell (row_fields w r @ [m]))
     = na_cell (na_rep id (SubCategory r))"
  "cell_at ''CustomerName'' (column_names @ [''Month'']) (map na_cell (row_fields w r @ [m]))
     = na_cell (na_rep id (CustomerName r))"
  "cell_at ''Month'' (column_names @ [''Month'']) (map na_cell (row_fields w r @ [m]))
     = na_cell m"
  by (simp_all add: cell_at_def col_index_def column_names_def row_fields_def)

lemma na_cell_text:
  assumes "\<And>s. c = Some s \<Longrightarrow> s \<notin> set na_values"
  shows "na_cell (na_rep id c) = c"
proof (cases c)
  case None
  then show ?thesis by (simp add: na_rep_def na_cell_def na_values_def)
next
  case (Some s)
  with assms show ?thesis by (simp add: na_rep_def na_cell_def)
qed

lemma reread:
  assumes "\<And>x. c = Some x \<Longrightarrow> repr x \<notin> set na_values \<and> parse (repr x) = Some x"
  shows "coerce_cell parse (na_cell (na_rep repr c)) = c"
proof (cases c)
  case None
  then show ?thesis by (simp add: na_rep_def na_cell_def na_values_def coerce_cell_def)
next
  case (Some x)
  with assms show ?thesis
    by (simp add: na_rep_def na_cell_def coerce_cell_def)
qed

lemma digit_eq_char: "digit n = c \<longleftrightarrow> (of_char c :: nat) = 48 + n mod 10"
proof
  assume "digit n = c"
  then show "(of_char c :: nat) = 48 + n mod 10" using of_char_digit by blast
next
  assume "(of_char c :: nat) = 48 + n mod 10"
  then have "char_of (of_char c :: nat) = digit n" by (simp add: digit_def)
  then show "digit n = c" by simp
qed

lemma month_of_reads_back: "na_cell (na_rep id (month_of v r)) = month_of v r"
proof (rule na_cell_text)
  fix s assume "month_of v r = Some s"
  then show "s \<notin> set na_values"
    by (cases "OrderDate r"; cases v)
       (auto simp: month_of_def period_str_def month_str_def na_values_def digit_eq_char)
qed

lemma reads_back_text:
  assumes "reads_back td tn w r"
  shows "na_cell (na_rep id (OrderID r)) = OrderID r"
    "na_cell (na_rep id (Region r)) = Region r"
    "na_cell (na_rep id (Segment r)) = Segment r"
    "na_cell (na_rep id (Category r)) = Category r"
    "na_cell (na_rep id (SubCategory r)) = SubCategory r"
    "na_cell (na_rep id (CustomerName r)) = CustomerName r"
  using assms by (simp_all add: reads_back_def na_cell_text)

lemma reads_back_typed:
  assumes "reads_back td tn w r"
  shows "coerce_cell td (na_cell (na_rep (order_date_repr w) (OrderDate r))) = OrderDate r"
    "coerce_cell td (na_cell (na_rep (ship_date_repr w) (ShipDate r))) = ShipDate r"
    "coerce_cell tn (na_cell (na_rep (sales_repr w) (Sales r))) = Sales r"
    "coerce_cell tn (na_cell (na_rep (profit_repr w) (Profit r))) = Profit r"
  using assms by (simp_all add: reads_back_def reread)

lemma boolean_index_map_map:
  "boolean_index (map g xs) (map P xs) = map g (filter P xs)"
  by (induction xs) (simp_all add: boolean_index_def)

lemma dropna_frame_clean:
  assumes "\<And>r. r \<in> set rs \<Longrightarrow> notna_subset r"
  shows "dropna_frame (assign_month v (new_frame rs)) = assign_month v (new_frame rs)"
proof -
  have keep: "filter notna_subset rs = rs"
    using assms by (simp add: filter_id_conv)
  show ?thesis
    by (simp add: dropna_frame_def frame_getitem_def assign_month_def new_frame_def
        boolean_index_map boolean_index_map_map keep)
qed

lemma read_frame_to_csv:
  assumes rb: "\<And>r. r \<in> set rs \<Longrightarrow> reads_back td tn w r"
    and kt: "keeps_texts infer (assign_month v (new_frame rs))"
  shows "read_frame infer td tn (to_csv w (assign_month v (new_frame rs)))
         = Inr (assign_month v (new_frame rs))"
proof -
  let ?H = "column_names @ [''Month'']"
  let ?recs = "map (\<lambda>r. map na_cell (row_fields w r @ [na_rep id (month_of v r)])) rs"
  have kt': "infer (map OrderID rs) = map OrderID rs" "infer (map Region rs) = map Region rs"
    "infer (map Segment rs) = map Segment rs" "infer (map Category rs) = map Category rs"
    "infer (map SubCategory rs) = map SubCategory rs"
    "infer (map CustomerName rs) = map CustomerName rs"
    "infer (map (month_of v) rs) = map (month_of v) rs"
    using kt by (simp_all add: keeps_texts_def assign_month_def new_frame_def)
  have texts: "column ''OrderID'' ?H ?recs = map OrderID rs"
    "column ''Region'' ?H ?recs = map Region rs"
    "column ''Segment'' ?H ?recs = map Segment rs"
    "column ''Category'' ?H ?recs = map Category rs"
    "column ''SubCategory'' ?H ?recs = map SubCategory rs"
    "column ''CustomerName'' ?H ?recs = map CustomerName rs"
    unfolding column_def map_map o_def cell_at_fields
    by (rule map_cong [OF refl], simp add: reads_back_text [OF rb])+
  have month: "column ''Month'' ?H ?recs = map (month_of v) rs"
    unfolding column_def map_map o_def cell_at_fields month_of_reads_back by (rule refl)
  have typed: "column ''OrderDate'' ?H ?recs
        = map (\<lambda>r. na_cell (na_rep (order_date_repr w) (OrderDate r))) rs"
    "column ''ShipDate'' ?H ?recs
        = map (\<lambda>r. na_cell (na_rep (ship_date_repr w) (ShipDate r))) rs"
    "column ''Sales'' ?H ?recs = map (\<lambda>r. na_cell (na_rep (sales_repr w) (Sales r))) rs"
    "column ''Profit'' ?H ?recs = map (\<lambda>r. na_cell (na_rep (profit_repr w) (Profit r))) rs"
    unfolding column_def map_map o_def cell_at_fields by (rule refl)+
  have A: "map (coerce td tn) (raw_rows infer ?H ?recs) = rs"
  proof (rule nth_equalityI)
    show "length (map (coerce td tn) (raw_rows infer ?H ?recs)) = length rs"
      by (simp add: raw_rows_def)
    fix i assume "i < length (map (coerce td tn) (raw_rows infer ?H ?recs))"
    then have i: "i < length rs" by (simp add: raw_rows_def)
    then have r: "reads_back td tn w (rs ! i)" by (simp add: rb)
    have "map (coerce td tn) (raw_rows infer ?H ?recs) ! i
        = coerce td tn
            \<lparr> OrderID = OrderID (rs ! i),
              OrderDate = na_cell (na_rep (order_date_repr w) (OrderDate (rs ! i))),
              ShipDate = na_cell (na_rep (ship_date_repr w) (ShipDate (rs ! i))),
              Sales = na_cell (na_rep (sales_repr w) (Sales (rs ! i))),
              Profit = na_cell (na_rep (profit_repr w) (Profit (rs ! i))),
              Region = Region (rs ! i), Segment = Segment (rs ! i),
              Category = Category (rs ! i), SubCategory = SubCategory (rs ! i),
              CustomerName = CustomerName (rs ! i) \<rparr>"
      unfolding raw_rows_def texts typed kt' using i by (simp add: nth_cell_def)
    also have "\<dots> = rs ! i"
      by (simp add: coerce_def reads_back_typed [OF r])
    finally show "map (coerce td tn) (raw_rows infer ?H ?recs) ! i = rs ! i" .
  qed
  have B: "infer (column ''Month'' ?H ?recs) = map (month_of v) rs"
    unfolding month by (rule kt')
  have sub: "set loaded_columns \<subseteq> set ?H" "''Month'' \<in> set ?H"
    by (auto simp: loaded_columns_def column_names_def)
  have "read_frame infer td tn (to_csv w (assign_month v (new_frame rs)))
      = (if \<not> set loaded_columns \<subseteq> set ?H then Inl KeyError
         else Inr \<lparr> rows = map (coerce td tn) (raw_rows infer ?H ?recs),
                    Month = (if ''Month'' \<in> set ?H
                             then Some (infer (column ''Month'' ?H ?recs)) else None) \<rparr>)"
    unfolding read_frame_def read_csv_to_csv by (simp only: sum.case prod.case header_kept)
  also have "\<dots> = Inr \<lparr> rows = rs, Month = Some (map (month_of v) rs) \<rparr>"
    unfolding A B using sub by (simp only: not_True_eq_False if_False if_True)
  also have "\<dots> = Inr (assign_month v (new_frame rs))"
    by (simp add: assign_month_def new_frame_def)
  finally show ?thesis .
qed

lemma loader_rules_to_csv:
  assumes "\<And>r. r \<in> set rs \<Longrightarrow> notna_subset r"
    and "\<And>r. r \<in> set rs \<Longrightarrow> reads_back td tn w r"
    and "keeps_texts infer (assign_month v (new_frame rs))"
  shows "loader_rules infer td tn (to_csv w (assign_month v (new_frame rs)))
         = Inr (assign_month v (new_frame rs))"
proof -
  have "read_frame infer td tn (to_csv w (assign_month v (new_frame rs)))
      = Inr (assign_month v (new_frame rs))"
    by (rule read_frame_to_csv) (erule assms(2), rule assms(3))
  moreover have "dropna_frame (assign_month v (new_frame rs)) = assign_month v (new_frame rs)"
    by (rule dropna_frame_clean) (erule assms(1))
  ultimately show ?thesis by (simp add: loader_rules_def)
qed

text \<open>The subset of the examples is written, and read back from the written text.\<close>

lemma example_reads_back:
  assumes "name \<notin> set na_values"
  shows "reads_back example_to_datetime example_to_numeric example_formats
     (order ''O1'' (Some \<lparr> year = 2020, month = 1, day = 15 \<rparr>) name 100 30)"
proof -
  have "iso_date \<lparr> year = 2020, month = 1, day = 15 \<rparr> = ''2020-01-15''"
    by code_simp
  then show ?thesis
    using assms
    by (simp add: reads_back_def order_def example_formats_def example_float_repr_def
        example_to_datetime_def example_to_numeric_def na_values_def)
qed

lemma example_notna:
  "notna_subset (order oid d name s p)"
  by (simp add: notna_subset_def order_def)

lemma keeps_texts_id: "keeps_texts (\<lambda>col. col) f"
  by (simp add: keeps_texts_def split: option.splits)

lemma loader_rules_example:
  assumes "name \<notin> set na_values"
  shows "loader_rules (\<lambda>col. col) example_to_datetime example_to_numeric
      (to_csv example_formats (example_subset name)) = Inr (example_subset name)"
  unfolding example_subset_def
proof (rule loader_rules_to_csv)
  fix r assume "r \<in> set [order ''O1'' (Some \<lparr> year = 2020, month = 1, day = 15 \<rparr>) name 100 30]"
  then have r: "r = order ''O1'' (Some \<lparr> year = 2020, month = 1, day = 15 \<rparr>) name 100 30"
    by simp
  show "notna_subset r" unfolding r by (rule example_notna)
  show "reads_back example_to_datetime example_to_numeric example_formats r"
    unfolding r by (rule example_reads_back [OF assms])
next
  show "keeps_texts (\<lambda>col. col) (assign_month NaT_text (new_frame
      [order ''O1'' (Some \<lparr> year = 2020, month = 1, day = 15 \<rparr>) name 100 30]))"
    by (rule keeps_texts_id)
qed

lemma to_csv_example:
  "to_csv example_formats (example_subset name) =
   ''OrderID,OrderDate,ShipDate,Sales,Profit,Region,Segment,Category,SubCategory,CustomerName,Month'' @ [CHR 0x0A] @
   ''O1,2020-01-15,,100.0,30.0,West,Consumer,Furniture,Chairs,'' @ quote_minimal name @ '',2020-01'' @ [CHR 0x0A]"
proof -
  have d: "iso_date \<lparr> year = 2020, month = 1, day = 15 \<rparr> = ''2020-01-15''"
    by code_simp
  have m: "month_of NaT_text
      (order ''O1'' (Some \<lparr> year = 2020, month = 1, day = 15 \<rparr>) name 100 30) = Some ''2020-01''"
    by (simp add: order_fields period_str_examples del: One_nat_def)
  have rowf: "row_fields example_formats
      (order ''O1'' (Some \<lparr> year = 2020, month = 1, day = 15 \<rparr>) name 100 30)
      = [''O1'', ''2020-01-15'', [], ''100.0'', ''30.0'', ''West'', ''Consumer'', ''Furniture'',
         ''Chairs'', name]"
    using d
    by (simp add: row_fields_def na_rep_def order_def example_formats_def example_float_repr_def)
  show ?thesis
    unfolding example_subset_def to_csv_assign_month list.map rowf m
    by (simp add: csv_line_def column_names_def na_rep_def quote_minimal_def needs_quotes_def)
qed

lemma export_jose:
  "export_data example_formats (example_subset (''Jos'' @ [CHR 0xE9]))
   = to_csv example_formats (example_subset (''Jos'' @ [CHR 0xC3, CHR 0xA9]))"
  unfolding export_data_def to_csv_example by code_simp

text \<open>
  C4, for a subset that is written without a character above 127. The exported file is
  the UTF-8 encoding of the text that \<open>to_csv\<close> writes for the current subset, and the
  Loader decodes a file as ISO-8859-1. Let the subset be a filtered subset of a loaded
  table, with its Month column, let the written text have no character above 127, and let
  the library read every cell back as it was written: no text cell is a word that
  \<^verbatim>\<open>read_csv\<close> reads as NaN, the parsers read every date and every number back from
  the text its writer makes of it, and type inference leaves the text columns as they
  are. Then the Loader decodes the export to the written text, re-parsing the export with
  the rules of the Loader before its missing-field filter gives the subset, the
  missing-field filter drops no row of the subset, and so re-parsing the export with all
  the rules of the Loader gives the subset.
\<close>

theorem export_reimport:
  assumes "f = assign_month v (new_frame
               (apply_filters (load_data to_datetime to_numeric raw) R C S))"
    and "\<forall>r \<in> set (rows f). reads_back to_datetime to_numeric w r"
    and "keeps_texts infer f"
    and "\<forall>c \<in> set (to_csv w f). (of_char c :: nat) < 128"
  shows "decode_latin1 (export_data w f) = to_csv w f
       \<and> read_frame infer to_datetime to_numeric (decode_latin1 (export_data w f)) = Inr f
       \<and> dropna_frame f = f
       \<and> reload infer to_datetime to_numeric (export_data w f) = Inr f"
proof -
  let ?rs = "apply_filters (load_data to_datetime to_numeric raw) R C S"
  have rows: "rows f = ?rs"
    unfolding assms(1) by (simp add: assign_month_def new_frame_def)
  have clean: "notna_subset r" if "r \<in> set ?rs" for r
    using that by (simp add: apply_filters_filter) (erule conjE, erule notna_load_data)
  have rb: "reads_back to_datetime to_numeric w r" if "r \<in> set ?rs" for r
    using assms(2) that unfolding rows by blast
  have kt: "keeps_texts infer (assign_month v (new_frame ?rs))"
    using assms(3) unfolding assms(1) .
  have "encode_utf8 (to_csv w f) = to_csv w f"
    using assms(4) by (simp only: encode_utf8_eq_iff)
  then have 1: "decode_latin1 (export_data w f) = to_csv w f"
    by (simp add: export_data_def decode_latin1_id)
  have 2: "read_frame infer to_datetime to_numeric (to_csv w f) = Inr f"
    unfolding assms(1) by (rule read_frame_to_csv) (erule rb, rule kt)
  have 3: "dropna_frame f = f"
    unfolding assms(1) by (rule dropna_frame_clean) (erule clean)
  have 4: "reload infer to_datetime to_numeric (export_data w f) = Inr f"
    unfolding reload_def 1 loader_rules_def 2 by (simp add: 3)
  from 1 2 3 4 show ?thesis by simp
qed

text \<open>
  The round trip of the specification fails on a subset of one record whose customer name
  ends in the character 233 (e with acute accent), a filtered subset of a loaded table in
  which every cell is read back as it was written. The written text itself is read back
  by the Loader rules as the subset, but the exported bytes are read back as a subset
  whose customer name ends in the two characters 195 and 169.
\<close>

theorem export_reimport_counterexample:
  "reload (\<lambda>col. col) example_to_datetime example_to_numeric
     (export_data example_formats (example_subset (''Jos'' @ [CHR 0xE9])))
     = Inr (example_subset (''Jos'' @ [CHR 0xC3, CHR 0xA9]))
   \<and> reload (\<lambda>col. col) example_to_datetime example_to_numeric
     (export_data example_formats (example_subset (''Jos'' @ [CHR 0xE9])))
     \<noteq> Inr (example_subset (''Jos'' @ [CHR 0xE9]))
   \<and> loader_rules (\<lambda>col. col) example_to_datetime example_to_numeric
     (to_csv example_formats (example_subset (''Jos'' @ [CHR 0xE9])))
     = Inr (example_subset (''Jos'' @ [CHR 0xE9]))
   \<and> example_subset (''Jos'' @ [CHR 0xE9])
     = assign_month NaT_text (new_frame (apply_filters
         (load_data example_to_datetime example_to_numeric
            [raw_order ''O1'' ''2020-01-15'' (''Jos'' @ [CHR 0xE9]) ''100'' ''30''])
         [Some ''West''] [Some ''Furniture''] [Some ''Chairs'']))"
proof -
  have 1: "reload (\<lambda>col. col) example_to_datetime example_to_numeric
     (export_data example_formats (example_subset (''Jos'' @ [CHR 0xE9])))
     = Inr (example_subset (''Jos'' @ [CHR 0xC3, CHR 0xA9]))"
    unfolding reload_def decode_latin1_id export_jose
    by (rule loader_rules_example) (simp add: na_values_def)
  have 2: "example_subset (''Jos'' @ [CHR 0xC3, CHR 0xA9]) \<noteq> example_subset (''Jos'' @ [CHR 0xE9])"
    by (simp add: example_subset_def assign_month_def new_frame_def order_def)
  have 3: "loader_rules (\<lambda>col. col) example_to_datetime example_to_numeric
     (to_csv example_formats (example_subset (''Jos'' @ [CHR 0xE9])))
     = Inr (example_subset (''Jos'' @ [CHR 0xE9]))"
    by (rule loader_rules_example) (simp add: na_values_def)
  have 4: "example_subset (''Jos'' @ [CHR 0xE9])
     = assign_month NaT_text (new_frame (apply_filters
         (load_data example_to_datetime example_to_numeric
            [raw_order ''O1'' ''2020-01-15'' (''Jos'' @ [CHR 0xE9]) ''100'' ''30''])
         [Some ''West''] [Some ''Furniture''] [Some ''Chairs'']))"
    by (simp add: example_subset_def apply_filters_filter load_data_def dropna_def coerce_def
        coerce_cell_def notna_subset_def raw_order_def order_def example_to_datetime_def
        example_to_numeric_def)
  from 1 2 3 4 show ?thesis by simp
qed

text \<open>
  With the customer name \<open>Jose\<close> the subset is a filtered subset of a loaded table, its
  cells are read back, the written text has no character above 127, and the export is
  read back as the subset.
\<close>

theorem export_reimport_witness:
  "example_subset ''Jose''
     = assign_month NaT_text (new_frame (apply_filters
         (load_data example_to_datetime example_to_numeric
            [raw_order ''O1'' ''2020-01-15'' ''Jose'' ''100'' ''30''])
         [Some ''West''] [Some ''Furniture''] [Some ''Chairs'']))
   \<and> list_all (reads_back example_to_datetime example_to_numeric example_formats)
        (rows (example_subset ''Jose''))
   \<and> keeps_texts (\<lambda>col. col) (example_subset ''Jose'')
   \<and> list_all (\<lambda>c. (of_char c :: nat) < 128) (to_csv example_formats (example_subset ''Jose''))
   \<and> reload (\<lambda>col. col) example_to_datetime example_to_numeric
       (export_data example_formats (example_subset ''Jose''))
     = Inr (example_subset ''Jose'')
   \<and> dropna_frame (example_subset ''Jose'') = example_subset ''Jose''"
proof -
  let ?f = "example_subset ''Jose''"
  have h1: "?f = assign_month NaT_text (new_frame (apply_filters
         (load_data example_to_datetime example_to_numeric
            [raw_order ''O1'' ''2020-01-15'' ''Jose'' ''100'' ''30''])
         [Some ''West''] [Some ''Furniture''] [Some ''Chairs'']))"
    by (simp add: example_subset_def apply_filters_filter load_data_def dropna_def coerce_def
        coerce_cell_def notna_subset_def raw_order_def order_def example_to_datetime_def
        example_to_numeric_def)
  have rows: "rows ?f = [order ''O1'' (Some \<lparr> year = 2020, month = 1, day = 15 \<rparr>) ''Jose'' 100 30]"
    by (simp add: example_subset_def assign_month_def new_frame_def)
  have rb: "reads_back example_to_datetime example_to_numeric example_formats
     (order ''O1'' (Some \<lparr> year = 2020, month = 1, day = 15 \<rparr>) ''Jose'' 100 30)"
    by (rule example_reads_back) (simp add: na_values_def)
  have h2: "\<forall>r \<in> set (rows ?f). reads_back example_to_datetime example_to_numeric example_formats r"
    unfolding rows using rb by simp
  have h3: "keeps_texts (\<lambda>col. col) ?f" by (rule keeps_texts_id)
  have h4: "\<forall>c \<in> set (to_csv example_formats ?f). (of_char c :: nat) < 128"
    unfolding to_csv_example by (simp add: quote_minimal_def needs_quotes_def)
  note inst = export_reimport [OF h1 h2 h3 h4]
  from inst h1 h2 h3 h4 show ?thesis
    by (simp add: list_all_iff)
qed

subsection \<open>The loaded table during a run\<close>

lemma frame_getitem_new_frame:
  "frame_getitem (new_frame rs) msk = new_frame (boolean_index rs msk)"
  by (simp add: frame_getitem_def new_frame_def)

lemma filter_step_load_step:
  "filter_step (load_step td tn raw) R C S =
     \<lparr> heap = [new_frame (load_data td tn raw),
               new_frame (apply_filters (load_data td tn raw) R C S)],
       df_var = 0, df_filtered_var = 1 \<rparr>"
  by (simp add: filter_step_def load_step_def frame_getitem_def apply_filters_def
      new_frame_def)

lemma month_step_filter_step:
  "month_step v (filter_step (load_step td tn raw) R C S) =
     \<lparr> heap = [new_frame (load_data td tn raw),
               assign_month v (new_frame (apply_filters (load_data td tn raw) R C S))],
       df_var = 0, df_filtered_var = 1 \<rparr>"
  by (simp add: filter_step_load_step month_step_def)

text \<open>
  C9. The object that \<open>df\<close> refers to is the loaded table, with no Month column, after
  each of the three statements that make or change a DataFrame object: after loading,
  after filtering, and after the Month column has been assigned; and \<open>df\<close> refers to the
  same object throughout. \<open>df_filtered\<close> refers to another object, the filtered copy,
  and the Month column is assigned to that copy only.
\<close>

theorem cleaned_table_unchanged:
  "fst (load_step to_datetime to_numeric raw) ! snd (load_step to_datetime to_numeric raw)
     = new_frame (load_data to_datetime to_numeric raw)
   \<and> df_var (filter_step (load_step to_datetime to_numeric raw) R C S)
       = snd (load_step to_datetime to_numeric raw)
   \<and> heap (filter_step (load_step to_datetime to_numeric raw) R C S)
         ! df_var (filter_step (load_step to_datetime to_numeric raw) R C S)
       = new_frame (load_data to_datetime to_numeric raw)
   \<and> df_filtered_var (filter_step (load_step to_datetime to_numeric raw) R C S)
       \<noteq> df_var (filter_step (load_step to_datetime to_numeric raw) R C S)
   \<and> heap (filter_step (load_step to_datetime to_numeric raw) R C S)
         ! df_filtered_var (filter_step (load_step to_datetime to_numeric raw) R C S)
       = new_frame (apply_filters (load_data to_datetime to_numeric raw) R C S)
   \<and> df_var (month_step v (filter_step (load_step to_datetime to_numeric raw) R C S))
       = snd (load_step to_datetime to_numeric raw)
   \<and> heap (month_step v (filter_step (load_step to_datetime to_numeric raw) R C S))
         ! df_var (month_step v (filter_step (load_step to_datetime to_numeric raw) R C S))
       = new_frame (load_data to_datetime to_numeric raw)
   \<and> df_filtered_var (month_step v (filter_step (load_step to_datetime to_numeric raw) R C S))
       \<noteq> df_var (month_step v (filter_step (load_step to_datetime to_numeric raw) R C S))
   \<and> heap (month_step v (filter_step (load_step to_datetime to_numeric raw) R C S))
         ! df_filtered_var (month_step v (filter_step (load_step to_datetime to_numeric raw) R C S))
       = assign_month v (new_frame (apply_filters (load_data to_datetime to_numeric raw) R C S))
   \<and> Month (new_frame (load_data to_datetime to_numeric raw)) = None
   \<and> rows (new_frame (load_data to_datetime to_numeric raw))
       = load_data to_datetime to_numeric raw"
proof -
  have l: "snd (load_step to_datetime to_numeric raw) = 0"
    "fst (load_step to_datetime to_numeric raw) = [new_frame (load_data to_datetime to_numeric raw)]"
    by (simp_all add: load_step_def)
  show ?thesis
    unfolding month_step_filter_step
    unfolding filter_step_load_step l
    by (simp add: new_frame_def)
qed


end
